theory Spec2Isabelle
  imports Main "HOL-Library.Multiset"
begin

section \<open>Python values shared by the three services\<close>

text \<open>
  A Python \<open>str\<close> is a sequence of Unicode code points; it is modelled as a list of
  naturals, one per code point. \<open>asc\<close> embeds an ASCII literal. The non-ASCII literals of
  the source are written out as code point lists.
\<close>

type_synonym pystr = "nat list"

definition asc :: "string \<Rightarrow> pystr" where
  "asc s = map of_char s"

text \<open>
  The exceptions the modelled code can raise or receive. The only distinction the source
  makes between them is \<open>except requests.exceptions.RequestException\<close> against
  \<open>except Exception\<close>.
\<close>

datatype py_exception =
    RequestException pystr
  | KeyError pystr
  | IndexError
  | ValueError
  | TypeError
  | OtherException pystr

text \<open>
  A \<open>datetime\<close>: its position on the time line in microseconds (the resolution of
  Python's \<open>datetime\<close>), and the calendar fields the source reads.
\<close>

record datetime =
  dt_us :: int
  dt_month :: nat
  dt_day :: nat
  dt_hour :: nat

text \<open>
  What a call of fuzzywuzzy's \<open>process.extractOne\<close> can return: \<open>None\<close>, a pair of a
  choice and its score, or a triple with a key as third component.
\<close>

datatype extract_result = ResultNone | Result2 pystr int | Result3 pystr int pystr

text \<open>
  What the Python runtime and the third-party libraries compute is not code of the
  repository; these functions are parameters of the model: \<open>str.lower\<close>,
  \<open>str.isdigit\<close> on one character, fuzzywuzzy's \<open>fuzz.partial_ratio\<close>, \<open>fuzz.ratio\<close>,
  default processor \<open>utils.full_process\<close> and
  \<open>process.extractOne(query, choices, scorer=fuzz.ratio)\<close>, \<open>datetime.strptime\<close> with the
  format \<open>%Y-%m-%d %H:%M:%S\<close> (\<open>None\<close> is its \<open>ValueError\<close>), \<open>str(e)\<close> of an exception,
  \<open>os.path.splitext(p)[0]\<close> and \<open>urllib.parse.quote\<close>.
\<close>

record py_runtime =
  str_lower :: "pystr \<Rightarrow> pystr"
  str_isdigit :: "nat \<Rightarrow> bool"
  fuzz_partial_ratio :: "pystr \<Rightarrow> pystr \<Rightarrow> int"
  fuzz_ratio :: "pystr \<Rightarrow> pystr \<Rightarrow> int"
  full_process :: "pystr \<Rightarrow> pystr"
  process_extractOne :: "pystr \<Rightarrow> pystr list \<Rightarrow> extract_result"
  strptime :: "pystr \<Rightarrow> datetime option"
  exc_str :: "py_exception \<Rightarrow> pystr"
  splitext_root :: "pystr \<Rightarrow> pystr"
  quote :: "pystr \<Rightarrow> pystr"

section \<open>Music service (src/services/music_service.py)\<close>

text \<open>
  \<open>VideoData\<close> objects are mutable and shared: the same object is an element of
  \<open>_all_available_videos\<close> and of \<open>_unplayed_videos\<close>, and \<open>video.played = True\<close> is seen
  through both lists. Objects therefore live in a store (\<open>heap\<close>, from addresses to
  objects) and the two module-level lists hold addresses.
\<close>

type_synonym ref = nat

record VideoData =
  url :: pystr
  description :: pystr
  matched_weather_descriptions :: "pystr list"
  played :: bool

record MusicRecommendation =
  mr_url :: "pystr option"
  mr_description :: "pystr option"
  mr_message :: pystr

record music_state =
  heap :: "ref \<Rightarrow> VideoData"
  all_available_videos :: "ref list"
  unplayed_videos :: "ref list"

text \<open>
  \<open>_load_videos_data\<close>. The file behind \<open>settings.YT_VIDEOS_JSON_PATH\<close> is the argument
  \<open>file\<close>: \<open>None\<close> when it is missing or does not parse into \<open>VideoData\<close> items (every
  such failure is caught and leaves both globals as they were), \<open>Some raw_data\<close> otherwise.
  One fresh object is created per item; loading only runs while the universe is empty,
  when no object is referenced, and the objects are placed at the addresses
  \<open>0 ..< len(raw_data)\<close>.
\<close>

definition load_videos_data :: "VideoData list option \<Rightarrow> music_state \<Rightarrow> music_state" where
  "load_videos_data file s =
     (if all_available_videos s \<noteq> [] then s
      else case file of
        None \<Rightarrow> s
      | Some raw_data \<Rightarrow>
          s\<lparr>heap := (\<lambda>a. if a < length raw_data then raw_data ! a else heap s a),
            all_available_videos := [0 ..< length raw_data],
            unplayed_videos := filter (\<lambda>a. \<not> played (raw_data ! a)) [0 ..< length raw_data]\<rparr>)"

text \<open>The guard \<open>if not _all_available_videos: _load_videos_data()\<close> of both serve functions.\<close>

definition ensure_loaded :: "VideoData list option \<Rightarrow> music_state \<Rightarrow> music_state" where
  "ensure_loaded file s = (if all_available_videos s = [] then load_videos_data file s else s)"

text \<open>
  The reset on exhaustion: every video of the universe gets \<open>played = False\<close> and
  \<open>_unplayed_videos[:] = _all_available_videos\<close>.
\<close>

definition reset_played :: "ref list \<Rightarrow> (ref \<Rightarrow> VideoData) \<Rightarrow> (ref \<Rightarrow> VideoData)" where
  "reset_played rs h = (\<lambda>a. if a \<in> set rs then (h a)\<lparr>played := False\<rparr> else h a)"

definition refill :: "music_state \<Rightarrow> music_state" where
  "refill s = s\<lparr>heap := reset_played (all_available_videos s) (heap s),
                 unplayed_videos := all_available_videos s\<rparr>"

text \<open>
  \<open>list.remove(x)\<close> deletes the first element that is \<open>x\<close> itself or compares equal to it
  (pydantic models compare by field values), and raises \<open>ValueError\<close> when there is none.
\<close>

fun list_remove :: "(ref \<Rightarrow> VideoData) \<Rightarrow> ref \<Rightarrow> ref list \<Rightarrow> ref list option" where
  "list_remove h x [] = None"
| "list_remove h x (r # rs) =
     (if r = x \<or> h r = h x then Some rs
      else case list_remove h x rs of None \<Rightarrow> None | Some rs' \<Rightarrow> Some (r # rs'))"

text \<open>Python's \<open>max\<close> over an iterable: \<open>ValueError\<close> on an empty one.\<close>

fun py_max :: "int list \<Rightarrow> py_exception + int" where
  "py_max [] = Inl ValueError"
| "py_max (x # xs) = Inr (fold max xs x)"

definition tag_scores :: "py_runtime \<Rightarrow> pystr \<Rightarrow> VideoData \<Rightarrow> int list" where
  "tag_scores rt weather_desc video =
     map (\<lambda>desc. fuzz_partial_ratio rt (str_lower rt weather_desc) (str_lower rt desc))
         (matched_weather_descriptions video)"

text \<open>
  The score of a video for a query, in the words of the specification: the maximum of
  the fuzzy scores of its tags.
\<close>

definition video_score :: "py_runtime \<Rightarrow> pystr \<Rightarrow> VideoData \<Rightarrow> int" where
  "video_score rt weather_desc video = Max (set (tag_scores rt weather_desc video))"

text \<open>
  The scan \<open>for video in _unplayed_videos\<close>, carrying \<open>(best_match, best_score)\<close>. An
  exception of \<open>max\<close> leaves the loop.
\<close>

fun best_scan :: "py_runtime \<Rightarrow> (ref \<Rightarrow> VideoData) \<Rightarrow> pystr \<Rightarrow> ref list \<Rightarrow>
    ref option \<times> int \<Rightarrow> py_exception + (ref option \<times> int)" where
  "best_scan rt h weather_desc [] best = Inr best"
| "best_scan rt h weather_desc (video # videos) (best_match, best_score) =
     (case py_max (tag_scores rt weather_desc (h video)) of
        Inl e \<Rightarrow> Inl e
      | Inr best_score_for_video \<Rightarrow>
          best_scan rt h weather_desc videos
            (if best_score_for_video > best_score then (Some video, best_score_for_video)
             else (best_match, best_score)))"

definition msg_not_initialised :: pystr where
  "msg_not_initialised =
     [38899, 27138, 28165, 21934, 23578, 26410, 21021, 22987, 21270, 25110, 28858, 31354, 12290]"

definition msg_matched :: "pystr \<Rightarrow> pystr \<Rightarrow> pystr" where
  "msg_matched weather_desc d =
     [24050, 28858, 24744, 25512, 34214, 33287, 12300] @ weather_desc
     @ [12301, 30456, 38364, 30340, 38899, 27138, 65306] @ d"

definition msg_random :: "pystr \<Rightarrow> pystr" where
  "msg_random d =
     [24050, 28858, 24744, 38568, 27231, 25512, 34214, 20102, 19968, 39318, 38899, 27138, 65306] @ d"

definition not_initialised :: MusicRecommendation where
  "not_initialised = \<lparr>mr_url = None, mr_description = None, mr_message = msg_not_initialised\<rparr>"

definition matched_recommendation :: "pystr \<Rightarrow> VideoData \<Rightarrow> MusicRecommendation" where
  "matched_recommendation weather_desc v =
     \<lparr>mr_url = Some (url v), mr_description = Some (description v),
      mr_message = msg_matched weather_desc (description v)\<rparr>"

definition random_recommendation :: "VideoData \<Rightarrow> MusicRecommendation" where
  "random_recommendation v =
     \<lparr>mr_url = Some (url v), mr_description = Some (description v),
      mr_message = msg_random (description v)\<rparr>"

text \<open>\<open>video.played = True\<close> on the object at address \<open>a\<close>.\<close>

definition mark_played :: "ref \<Rightarrow> (ref \<Rightarrow> VideoData) \<Rightarrow> (ref \<Rightarrow> VideoData)" where
  "mark_played a h = h(a := (h a)\<lparr>played := True\<rparr>)"

text \<open>
  The part of \<open>find_and_recommend_music_by_desc\<close> below the two guards (lines 75-102):
  scan, threshold, mark, remove.
\<close>

definition match_body :: "py_runtime \<Rightarrow> pystr \<Rightarrow> music_state \<Rightarrow>
    music_state \<times> (py_exception + MusicRecommendation option)" where
  "match_body rt weather_desc s =
     (case best_scan rt (heap s) weather_desc (unplayed_videos s) (None, -1) of
        Inl e \<Rightarrow> (s, Inl e)
      | Inr (best_match, best_score) \<Rightarrow>
          (case best_match of
             None \<Rightarrow> (s, Inr None)
           | Some b \<Rightarrow>
               if best_score \<ge> 70 then
                 (let h' = mark_played b (heap s) in
                  case list_remove h' b (unplayed_videos s) of
                    None \<Rightarrow> (s\<lparr>heap := h'\<rparr>, Inl ValueError)
                  | Some rest \<Rightarrow>
                      (s\<lparr>heap := h', unplayed_videos := rest\<rparr>,
                       Inr (Some (matched_recommendation weather_desc (h' b)))))
               else (s, Inr None)))"

text \<open>
  \<open>find_and_recommend_music_by_desc\<close>, with the recursive call of line 73 as it is
  written. The result is the state left behind and either the exception that escaped
  or the returned value (\<open>None\<close> is Python's \<open>None\<close>).
\<close>

function find_and_recommend_music_by_desc :: "py_runtime \<Rightarrow> VideoData list option \<Rightarrow> pystr \<Rightarrow>
    music_state \<Rightarrow> music_state \<times> (py_exception + MusicRecommendation option)" where
  "find_and_recommend_music_by_desc rt file weather_desc s =
     (let s1 = ensure_loaded file s in
      if all_available_videos s1 = [] then (s1, Inr (Some not_initialised))
      else if unplayed_videos s1 = [] then
        find_and_recommend_music_by_desc rt file weather_desc (refill s1)
      else match_body rt weather_desc s1)"
  by pat_completeness auto
termination
  by (relation "measure (\<lambda>(rt, file, weather_desc, s).
        if unplayed_videos (ensure_loaded file s) = []
           \<and> all_available_videos (ensure_loaded file s) \<noteq> [] then 1 else 0)")
     (simp_all add: ensure_loaded_def refill_def)

declare find_and_recommend_music_by_desc.simps [simp del]

text \<open>
  \<open>random.choice(seq)\<close> is \<open>seq[randbelow(len(seq))]\<close>. The random source is the
  argument \<open>rnd\<close>, an arbitrary natural, reduced into the range of valid indices; every
  index can be drawn.
\<close>

text \<open>(On an empty sequence \<open>random.choice\<close> raises; both callers test for it first.)\<close>

definition random_choice :: "nat \<Rightarrow> 'a list \<Rightarrow> 'a" where
  "random_choice rnd xs = xs ! (rnd mod length xs)"

definition random_body :: "nat \<Rightarrow> music_state \<Rightarrow>
    music_state \<times> (py_exception + MusicRecommendation option)" where
  "random_body rnd s =
     (if unplayed_videos s \<noteq> [] then
        (let chosen_video = random_choice rnd (unplayed_videos s);
             h' = mark_played chosen_video (heap s) in
         case list_remove h' chosen_video (unplayed_videos s) of
           None \<Rightarrow> (s\<lparr>heap := h'\<rparr>, Inl ValueError)
         | Some rest \<Rightarrow>
             (s\<lparr>heap := h', unplayed_videos := rest\<rparr>,
              Inr (Some (random_recommendation (h' chosen_video)))))
      else (s, Inr None))"

function get_random_music_recommendation :: "VideoData list option \<Rightarrow> nat \<Rightarrow>
    music_state \<Rightarrow> music_state \<times> (py_exception + MusicRecommendation option)" where
  "get_random_music_recommendation file rnd s =
     (let s1 = ensure_loaded file s in
      if all_available_videos s1 = [] then (s1, Inr (Some not_initialised))
      else if unplayed_videos s1 = [] then
        get_random_music_recommendation file rnd (refill s1)
      else random_body rnd s1)"
  by pat_completeness auto
termination
  by (relation "measure (\<lambda>(file, rnd, s).
        if unplayed_videos (ensure_loaded file s) = []
           \<and> all_available_videos (ensure_loaded file s) \<noteq> [] then 1 else 0)")
     (simp_all add: ensure_loaded_def refill_def)

declare get_random_music_recommendation.simps [simp del]

section \<open>Movie service (src/services/movie_service.py)\<close>

text \<open>Posters are file names, plain strings compared by value.\<close>

record MovieRecommendation =
  poster_url :: "pystr option"
  movie_title :: "pystr option"
  mv_message :: pystr

record movie_state =
  all_movie_posters :: "pystr list"
  unrecommended_posters :: "pystr list"

definition endswith :: "pystr \<Rightarrow> pystr \<Rightarrow> bool" where
  "endswith s suffix =
     (length suffix \<le> length s \<and> drop (length s - length suffix) s = suffix)"

definition formats :: "pystr list" where
  "formats = [asc ''.png'', asc ''.jpg'', asc ''.jpeg'', asc ''.gif'']"

text \<open>
  \<open>_load_movie_posters\<close>. The argument \<open>listing\<close> is \<open>os.listdir\<close> of the poster directory,
  \<open>None\<close> when the directory is missing or cannot be listed (caught, nothing changes).
\<close>

definition load_movie_posters :: "py_runtime \<Rightarrow> pystr list option \<Rightarrow> movie_state \<Rightarrow> movie_state" where
  "load_movie_posters rt listing s =
     (if all_movie_posters s \<noteq> [] then s
      else case listing of
        None \<Rightarrow> s
      | Some files \<Rightarrow>
          (let posters = filter (\<lambda>f. \<exists>suffix \<in> set formats. endswith (str_lower rt f) suffix) files
           in s\<lparr>all_movie_posters := posters, unrecommended_posters := posters\<rparr>))"

definition ensure_posters :: "py_runtime \<Rightarrow> pystr list option \<Rightarrow> movie_state \<Rightarrow> movie_state" where
  "ensure_posters rt listing s =
     (if all_movie_posters s = [] then load_movie_posters rt listing s else s)"

text \<open>\<open>list.remove\<close> on a list of strings: the first equal element goes, \<open>ValueError\<close> if none.\<close>

definition str_list_remove :: "pystr \<Rightarrow> pystr list \<Rightarrow> pystr list option" where
  "str_list_remove x xs = (if x \<in> set xs then Some (remove1 x xs) else None)"

definition msg_no_posters :: pystr where
  "msg_no_posters =
     [38651, 24433, 28023, 22577, 28165, 21934, 23578, 26410, 21021, 22987, 21270, 25110, 28858,
      31354, 12290]"

definition msg_movie :: "pystr \<Rightarrow> pystr" where
  "msg_movie title = [28858, 24744, 25512, 34214, 38651, 24433, 65306] @ title"

definition no_posters :: MovieRecommendation where
  "no_posters = \<lparr>poster_url = None, movie_title = None, mv_message = msg_no_posters\<rparr>"

text \<open>\<open>s.replace('_', ' ').replace('-', ' ')\<close> after \<open>os.path.splitext(...)[0]\<close>.\<close>

definition title_of :: "py_runtime \<Rightarrow> pystr \<Rightarrow> pystr" where
  "title_of rt filename =
     map (\<lambda>c. if c = 95 \<or> c = 45 then 32 else c) (splitext_root rt filename)"

text \<open>
  The response for a chosen file name. \<open>url_for\<close> stands for
  \<open>request.url_for("statics", path=...)\<close> of the request at hand.
\<close>

definition poster_recommendation :: "py_runtime \<Rightarrow> (pystr \<Rightarrow> pystr) \<Rightarrow> pystr \<Rightarrow> MovieRecommendation" where
  "poster_recommendation rt url_for chosen_poster_filename =
     \<lparr>poster_url = Some (url_for (asc ''movie/'' @ quote rt chosen_poster_filename)),
      movie_title = Some (title_of rt chosen_poster_filename),
      mv_message = msg_movie (title_of rt chosen_poster_filename)\<rparr>"

definition poster_body :: "py_runtime \<Rightarrow> (pystr \<Rightarrow> pystr) \<Rightarrow> nat \<Rightarrow> movie_state \<Rightarrow>
    movie_state \<times> (py_exception + MovieRecommendation option)" where
  "poster_body rt url_for rnd s =
     (if unrecommended_posters s \<noteq> [] then
        (let chosen_poster_filename = random_choice rnd (unrecommended_posters s) in
         case str_list_remove chosen_poster_filename (unrecommended_posters s) of
           None \<Rightarrow> (s, Inl ValueError)
         | Some rest \<Rightarrow>
             (s\<lparr>unrecommended_posters := rest\<rparr>,
              Inr (Some (poster_recommendation rt url_for chosen_poster_filename))))
      else (s, Inr None))"

function get_random_movie_poster :: "py_runtime \<Rightarrow> pystr list option \<Rightarrow> (pystr \<Rightarrow> pystr) \<Rightarrow> nat \<Rightarrow>
    movie_state \<Rightarrow> movie_state \<times> (py_exception + MovieRecommendation option)" where
  "get_random_movie_poster rt listing url_for rnd s =
     (let s1 = ensure_posters rt listing s in
      if all_movie_posters s1 = [] then (s1, Inr (Some no_posters))
      else if unrecommended_posters s1 = [] then
        get_random_movie_poster rt listing url_for rnd
          (s1\<lparr>unrecommended_posters := all_movie_posters s1\<rparr>)
      else poster_body rt url_for rnd s1)"
  by pat_completeness auto
termination
  by (relation "measure (\<lambda>(rt, listing, url_for, rnd, s).
        if unrecommended_posters (ensure_posters rt listing s) = []
           \<and> all_movie_posters (ensure_posters rt listing s) \<noteq> [] then 1 else 0)")
     (simp_all add: ensure_posters_def)

declare get_random_movie_poster.simps [simp del]

section \<open>Weather service (src/services/weather_service.py)\<close>

record WeatherResponse =
  city_name :: pystr
  weather_description :: pystr
  display_text :: pystr
  current_weather_type :: pystr

text \<open>
  \<open>config.settings\<close> is imported by the service and is not part of the sources at hand;
  the values read from it are parameters. The two dictionaries are association lists in
  insertion order, the order in which Python iterates them.
\<close>

record settings =
  CWA_API_KEY :: pystr
  MANUAL_CORRECTIONS :: "(pystr \<times> pystr) list"
  WEATHER_KEYWORDS_MAP :: "(pystr \<times> pystr) list"

text \<open>
  The JSON document of the CWA endpoint, as far as the source reads it. A key that the
  source looks up may be absent (\<open>None\<close>), a list may be empty; a key that is present
  holds a value of the documented type.
\<close>

record cwa_parameter =
  parameterName :: "pystr option"

record cwa_time =
  startTime :: "pystr option"
  endTime :: "pystr option"
  parameter :: "cwa_parameter option"

record cwa_element =
  elementName :: "pystr option"
  time :: "cwa_time list option"

record cwa_location =
  locationName :: "pystr option"
  weatherElement :: "cwa_element list option"

record cwa_records =
  location :: "cwa_location list option"

record cwa_data =
  records :: "cwa_records option"

text \<open>
  What one call of the lookup sees of the outside: the answer of \<open>_fetch_data_from_cwa\<close>
  for a URL (an exception of the HTTP client or of JSON decoding, or the document), and
  the readings of \<open>datetime.now()\<close> in microseconds, one per place of the source that
  reads the clock: at the cache test, in the key function of \<open>min\<close> for the time slot
  at a given position, and when the cache entry is written.
\<close>

record world =
  fetch_data_from_cwa :: "pystr \<Rightarrow> py_exception + cwa_data"
  now_check :: int
  now_select :: "nat \<Rightarrow> int"
  now_store :: int

record cache_entry =
  response :: WeatherResponse
  timestamp :: int

record weather_state =
  location_names :: "pystr list"
  weather_data_cache :: "pystr \<rightharpoonup> cache_entry"

text \<open>The calls the lookup makes, in order: the log against which "is not invoked" is read.\<close>

datatype event = FetchCWA pystr | AutoCorrectCity pystr

definition cwa_url :: "settings \<Rightarrow> pystr" where
  "cwa_url cfg =
     asc ''https://opendata.cwa.gov.tw/api/v1/rest/datastore/F-C0032-001?Authorization=''
     @ CWA_API_KEY cfg"

definition default_locations :: "pystr list" where
  "default_locations =
    [[33274, 21271, 24066], [26032, 21271, 24066], [26691, 22290, 24066], [33274, 20013, 24066],
     [33274, 21335, 24066], [39640, 38596, 24066], [22522, 38534, 24066], [26032, 31481, 24066],
     [22025, 32681, 24066], [26032, 31481, 32291], [33495, 26647, 32291], [24432, 21270, 32291],
     [21335, 25237, 32291], [38642, 26519, 32291], [22025, 32681, 32291], [23631, 26481, 32291],
     [23452, 34349, 32291], [33457, 34030, 32291], [33274, 26481, 32291], [28558, 28246, 32291],
     [37329, 38272, 32291], [36899, 27743, 32291]]"

text \<open>\<open>[loc['locationName'] for loc in ...]\<close>: a \<open>KeyError\<close> on the first entry without the key.\<close>

fun names_of :: "cwa_location list \<Rightarrow> py_exception + pystr list" where
  "names_of [] = Inr []"
| "names_of (loc # locs) =
     (case locationName loc of
        None \<Rightarrow> Inl (KeyError (asc ''locationName''))
      | Some n \<Rightarrow> (case names_of locs of Inl e \<Rightarrow> Inl e | Inr ns \<Rightarrow> Inr (n # ns)))"

text \<open>
  \<open>_get_all_location_names\<close>: the new state, the calls made, and the list returned. Every
  exception inside the \<open>try\<close> ends in the hard-coded list.
\<close>

definition get_all_location_names :: "settings \<Rightarrow> world \<Rightarrow> weather_state \<Rightarrow>
    weather_state \<times> event list \<times> pystr list" where
  "get_all_location_names cfg w s =
     (if location_names s \<noteq> [] then (s, [], location_names s)
      else
        (let fallback = (s\<lparr>location_names := default_locations\<rparr>, [FetchCWA (cwa_url cfg)],
                         default_locations)
         in case fetch_data_from_cwa w (cwa_url cfg) of
              Inl e \<Rightarrow> fallback
            | Inr resp \<Rightarrow>
                (case records resp of
                   None \<Rightarrow> fallback
                 | Some recs \<Rightarrow>
                     (case location recs of
                        None \<Rightarrow> fallback
                      | Some locs \<Rightarrow>
                          (case names_of locs of
                             Inl e \<Rightarrow> fallback
                           | Inr names \<Rightarrow>
                               (s\<lparr>location_names := names\<rparr>, [FetchCWA (cwa_url cfg)], names))))))"

subsection \<open>The name corrector\<close>

text \<open>
  What fuzzywuzzy's \<open>process.extractOne(query, choices, scorer=...)\<close> does for a list of
  choices, after the library's documentation: the processor is applied to the query and
  to every choice, every choice is scored, those with a score of at least the default
  cut-off 0 are kept as pairs \<open>(choice, score)\<close>, and \<open>max\<close> with the score as key returns
  the first pair with the highest score; with nothing kept the result is \<open>None\<close>. (Only
  for a dictionary of choices are the tuples triples, with the key as third component.)
\<close>

fun first_max :: "(pystr \<times> int) list \<Rightarrow> (pystr \<times> int) option" where
  "first_max [] = None"
| "first_max (p # ps) =
     (case first_max ps of
        None \<Rightarrow> Some p
      | Some q \<Rightarrow> if snd q > snd p then Some q else Some p)"

definition fuzzywuzzy_extractOne :: "(pystr \<Rightarrow> pystr) \<Rightarrow> (pystr \<Rightarrow> pystr \<Rightarrow> int) \<Rightarrow>
    pystr \<Rightarrow> pystr list \<Rightarrow> extract_result" where
  "fuzzywuzzy_extractOne processor scorer query choices =
     (let processed_query = processor query;
          scored = map (\<lambda>choice. (choice, scorer processed_query (processor choice))) choices
      in case first_max (filter (\<lambda>p. snd p \<ge> 0) scored) of
           None \<Rightarrow> ResultNone
         | Some (choice, score) \<Rightarrow> Result2 choice score)"

text \<open>A runtime whose \<open>process.extractOne\<close> is the one of fuzzywuzzy.\<close>

definition fuzzywuzzy_runtime :: "py_runtime \<Rightarrow> bool" where
  "fuzzywuzzy_runtime rt =
     (process_extractOne rt = fuzzywuzzy_extractOne (full_process rt) (fuzz_ratio rt))"

text \<open>
  The assignment \<open>match, score, _ = ...\<close> needs a sequence of exactly three items:
  \<open>TypeError\<close> for \<open>None\<close>, \<open>ValueError\<close> for a pair.
\<close>

fun unpack3 :: "extract_result \<Rightarrow> py_exception + (pystr \<times> int \<times> pystr)" where
  "unpack3 ResultNone = Inl TypeError"
| "unpack3 (Result2 m sc) = Inl ValueError"
| "unpack3 (Result3 m sc k) = Inr (m, sc, k)"

text \<open>\<open>d.get(key, default)\<close> on a dictionary.\<close>

definition dict_get :: "(pystr \<times> pystr) list \<Rightarrow> pystr \<Rightarrow> pystr \<Rightarrow> pystr" where
  "dict_get d k dflt = (case map_of d k of None \<Rightarrow> dflt | Some v \<Rightarrow> v)"

definition auto_correct_city :: "py_runtime \<Rightarrow> settings \<Rightarrow> pystr \<Rightarrow> pystr list \<Rightarrow>
    py_exception + pystr option" where
  "auto_correct_city rt cfg input_city available_locations =
     (let corrected = dict_get (MANUAL_CORRECTIONS cfg) input_city input_city in
      if corrected \<in> set available_locations then Inr (Some corrected)
      else if available_locations \<noteq> [] then
        (case unpack3 (process_extractOne rt corrected available_locations) of
           Inl e \<Rightarrow> Inl e
         | Inr (match, score, _) \<Rightarrow> if score \<ge> 75 then Inr (Some match) else Inr None)
      else Inr None)"

subsection \<open>The classifier\<close>

text \<open>\<open>keyword in weather_desc\<close> on strings: substring containment.\<close>

fun str_contains :: "pystr \<Rightarrow> pystr \<Rightarrow> bool" where
  "str_contains keyword [] = (keyword = [])"
| "str_contains keyword (c # cs) =
     (take (length keyword) (c # cs) = keyword \<or> str_contains keyword cs)"

fun first_keyword :: "(pystr \<times> pystr) list \<Rightarrow> pystr \<Rightarrow> pystr option" where
  "first_keyword [] weather_desc = None"
| "first_keyword ((keyword, anim_type) # rest) weather_desc =
     (if str_contains keyword weather_desc then Some anim_type
      else first_keyword rest weather_desc)"

definition classify_weather_type :: "settings \<Rightarrow> pystr \<Rightarrow> pystr" where
  "classify_weather_type cfg weather_desc =
     (case first_keyword (WEATHER_KEYWORDS_MAP cfg) weather_desc of
        Some anim_type \<Rightarrow> anim_type
      | None \<Rightarrow>
          if str_contains [26228] weather_desc then [26228]
          else if str_contains [38632] weather_desc then [38632]
          else if str_contains [38512] weather_desc then [38512]
          else if str_contains [22810, 38642] weather_desc then [22810, 38642]
          else if str_contains [38634] weather_desc then [38634]
          else [26228])"

subsection \<open>The lookup\<close>

text \<open>The four synthetic responses. \<open>[26228]\<close> is the "clear" label.\<close>

definition invalid_input_response :: "pystr \<Rightarrow> WeatherResponse" where
  "invalid_input_response city_input =
     \<lparr>city_name = city_input,
      weather_description = [28961, 25928, 36664, 20837],
      display_text = [32291, 24066, 21517, 31281, 19981, 33021, 21253, 21547, 25976, 23383, 65281],
      current_weather_type = [26228]\<rparr>"

definition unrecognised_response :: "pystr \<Rightarrow> WeatherResponse" where
  "unrecognised_response city_input =
     \<lparr>city_name = city_input,
      weather_description = [28961, 25928, 36664, 20837],
      display_text =
        [28961, 25928, 25110, 28961, 27861, 35672, 21029, 30340, 32291, 24066, 58, 32] @ city_input,
      current_weather_type = [26228]\<rparr>"

definition no_forecast_response :: "pystr \<Rightarrow> WeatherResponse" where
  "no_forecast_response corrected_city =
     \<lparr>city_name = corrected_city,
      weather_description = asc ''N/A'',
      display_text =
        [28961, 27861, 21462, 24471, 22825, 27683, 36039, 26009, 65306, 36039, 26009, 32080, 27083,
         30064, 24120, 25110, 28961, 26377, 25928, 38928, 22577],
      current_weather_type = [26228]\<rparr>"

definition is_request_exception :: "py_exception \<Rightarrow> bool" where
  "is_request_exception e = (case e of RequestException m \<Rightarrow> True | _ \<Rightarrow> False)"

definition error_response :: "py_runtime \<Rightarrow> pystr \<Rightarrow> py_exception \<Rightarrow> WeatherResponse" where
  "error_response rt corrected_city e =
     \<lparr>city_name = corrected_city,
      weather_description = asc ''N/A'',
      display_text =
        (if is_request_exception e then
           [28961, 27861, 21462, 24471, 22825, 27683, 36039, 26009, 65306, 32178, 36335, 25110, 65,
            80, 73, 37679, 35492, 32, 40] @ exc_str rt e @ asc '')''
         else
           [34389, 29702, 22825, 27683, 36039, 26009, 26178, 30332, 29983, 37679, 35492, 58, 32]
           @ exc_str rt e),
      current_weather_type = [26228]\<rparr>"

text \<open>
  The keys of \<open>min(time_elements, key=...)\<close>: for the slot at position \<open>i\<close>,
  \<open>abs(strptime(x['startTime']) - now())\<close>, as microseconds. The first slot without the
  key, or with a start time that does not parse, raises.
\<close>

fun slot_keys :: "py_runtime \<Rightarrow> world \<Rightarrow> nat \<Rightarrow> cwa_time list \<Rightarrow> py_exception + int list" where
  "slot_keys rt w i [] = Inr []"
| "slot_keys rt w i (x # xs) =
     (case startTime x of
        None \<Rightarrow> Inl (KeyError (asc ''startTime''))
      | Some st \<Rightarrow>
          (case strptime rt st of
             None \<Rightarrow> Inl ValueError
           | Some dt \<Rightarrow>
               (case slot_keys rt w (Suc i) xs of
                  Inl e \<Rightarrow> Inl e
                | Inr ks \<Rightarrow> Inr (\<bar>dt_us dt - now_select w i\<bar> # ks))))"

text \<open>\<open>min\<close>: the first element whose key is the least; \<open>ValueError\<close> on an empty list.\<close>

fun first_min :: "('a \<times> int) list \<Rightarrow> ('a \<times> int) option" where
  "first_min [] = None"
| "first_min (p # ps) =
     (case first_min ps of
        None \<Rightarrow> Some p
      | Some q \<Rightarrow> if snd q < snd p then Some q else Some p)"

definition nearest_slot :: "py_runtime \<Rightarrow> world \<Rightarrow> cwa_time list \<Rightarrow> py_exception + cwa_time" where
  "nearest_slot rt w time_elements =
     (case slot_keys rt w 0 time_elements of
        Inl e \<Rightarrow> Inl e
      | Inr ks \<Rightarrow>
          (case first_min (zip time_elements ks) of
             None \<Rightarrow> Inl ValueError
           | Some (forecast, k) \<Rightarrow> Inr forecast))"

text \<open>\<open>next((elem for elem in ... if elem['elementName'] == 'PoP'), None)\<close>.\<close>

fun find_pop :: "cwa_element list \<Rightarrow> py_exception + cwa_element option" where
  "find_pop [] = Inr None"
| "find_pop (elem # elems) =
     (case elementName elem of
        None \<Rightarrow> Inl (KeyError (asc ''elementName''))
      | Some n \<Rightarrow> if n = asc ''PoP'' then Inr (Some elem) else find_pop elems)"

text \<open>
  The loop over \<open>pop_data['time']\<close>, with \<open>pop = "N/A"\<close> to start with; \<open>slot_start\<close> and \<open>slot_end\<close>
  are \<open>forecast['startTime']\<close> (known to be present) and \<open>forecast.get('endTime')\<close>.
\<close>

fun pop_loop :: "pystr \<Rightarrow> pystr option \<Rightarrow> cwa_time list \<Rightarrow> py_exception + pystr" where
  "pop_loop slot_start slot_end [] = Inr (asc ''N/A'')"
| "pop_loop slot_start slot_end (pop_time # rest) =
     (case startTime pop_time of
        None \<Rightarrow> Inl (KeyError (asc ''startTime''))
      | Some pst \<Rightarrow>
          if pst = slot_start then
            (case endTime pop_time of
               None \<Rightarrow> Inl (KeyError (asc ''endTime''))
             | Some pen \<Rightarrow>
                 (case slot_end of
                    None \<Rightarrow> Inl (KeyError (asc ''endTime''))
                  | Some en \<Rightarrow>
                      if pen = en then
                        (case parameter pop_time of
                           None \<Rightarrow> Inl (KeyError (asc ''parameter''))
                         | Some p \<Rightarrow>
                             (case parameterName p of
                                None \<Rightarrow> Inl (KeyError (asc ''parameterName''))
                              | Some v \<Rightarrow> Inr (v @ asc ''%'')))
                      else pop_loop slot_start slot_end rest))
          else pop_loop slot_start slot_end rest)"

definition rain_probability :: "cwa_element list \<Rightarrow> pystr \<Rightarrow> pystr option \<Rightarrow> py_exception + pystr" where
  "rain_probability elems slot_start slot_end =
     (case find_pop elems of
        Inl e \<Rightarrow> Inl e
      | Inr None \<Rightarrow> Inr (asc ''N/A'')
      | Inr (Some pop_data) \<Rightarrow>
          (case time pop_data of
             None \<Rightarrow> Inl (KeyError (asc ''time''))
           | Some pop_times \<Rightarrow> pop_loop slot_start slot_end pop_times))"

text \<open>\<open>str(n)\<close> of a non-negative integer, as in the f-string.\<close>

fun str_of_nat :: "nat \<Rightarrow> pystr" where
  "str_of_nat n = (if n < 10 then [48 + n] else str_of_nat (n div 10) @ [48 + n mod 10])"

definition time_desc_of :: "nat \<Rightarrow> pystr" where
  "time_desc_of hour =
     (if hour < 6 then [21320, 22812, 21040, 26089, 26216]
      else if hour < 12 then [26089, 26216, 21040, 20013, 21320]
      else if hour < 18 then [20013, 21320, 21040, 20621, 26202]
      else [20621, 26202, 21040, 21320, 22812])"

definition forecast_text :: "pystr \<Rightarrow> datetime \<Rightarrow> pystr \<Rightarrow> pystr \<Rightarrow> pystr" where
  "forecast_text corrected_city start_dt desc pop =
     corrected_city @ [32] @ str_of_nat (dt_month start_dt) @ [47] @ str_of_nat (dt_day start_dt)
     @ [32] @ time_desc_of (dt_hour start_dt) @ [26159, 65306] @ desc
     @ [65292, 38477, 38632, 27231, 29575] @ pop @ [21908, 65281]"

text \<open>
  Lines 114-143: the test of the document's structure and, inside it, the construction
  of the response. \<open>Inr None\<close> is the test failing (the code goes on to line 145),
  \<open>Inl e\<close> an exception raised inside the block.
\<close>

definition build_response :: "py_runtime \<Rightarrow> settings \<Rightarrow> world \<Rightarrow> pystr \<Rightarrow> cwa_data \<Rightarrow>
    py_exception + WeatherResponse option" where
  "build_response rt cfg w corrected_city data =
     (case records data of
        None \<Rightarrow> Inr None
      | Some recs \<Rightarrow>
     (case location recs of
        None \<Rightarrow> Inr None
      | Some [] \<Rightarrow> Inr None
      | Some (loc0 # locs) \<Rightarrow>
     (case weatherElement loc0 of
        None \<Rightarrow> Inl (KeyError (asc ''weatherElement''))
      | Some [] \<Rightarrow> Inl IndexError
      | Some (elem0 # elems) \<Rightarrow>
     (case time elem0 of
        None \<Rightarrow> Inl (KeyError (asc ''time''))
      | Some time_elements \<Rightarrow>
     (case nearest_slot rt w time_elements of
        Inl e \<Rightarrow> Inl e
      | Inr forecast \<Rightarrow>
     (case parameter forecast of
        None \<Rightarrow> Inl (KeyError (asc ''parameter''))
      | Some p \<Rightarrow>
     (case parameterName p of
        None \<Rightarrow> Inl (KeyError (asc ''parameterName''))
      | Some desc \<Rightarrow>
     (case startTime forecast of
        None \<Rightarrow> Inl (KeyError (asc ''startTime''))
      | Some st \<Rightarrow>
     (case strptime rt st of
        None \<Rightarrow> Inl ValueError
      | Some start_dt \<Rightarrow>
     (case rain_probability (elem0 # elems) st (endTime forecast) of
        Inl e \<Rightarrow> Inl e
      | Inr pop \<Rightarrow>
          Inr (Some \<lparr>city_name = corrected_city,
                     weather_description = desc,
                     display_text = forecast_text corrected_city start_dt desc pop,
                     current_weather_type = classify_weather_type cfg desc\<rparr>)))))))))))"

text \<open>
  The freshness test of line 108: \<open>(now - timestamp).total_seconds() < 600\<close>, on
  microseconds.
\<close>

definition fresh :: "int \<Rightarrow> cache_entry \<Rightarrow> bool" where
  "fresh now entry = (now - timestamp entry < 600 * 1000000)"

definition weather_url :: "settings \<Rightarrow> pystr \<Rightarrow> pystr" where
  "weather_url cfg corrected_city = cwa_url cfg @ asc ''&locationName='' @ corrected_city"

text \<open>
  Lines 111-166: the fetch for a corrected city, the \<open>try\<close> block and its two handlers.
  The cache is written only on line 143, after the response has been built.
\<close>

definition fetch_weather :: "py_runtime \<Rightarrow> settings \<Rightarrow> world \<Rightarrow> pystr \<Rightarrow> weather_state \<Rightarrow>
    weather_state \<times> event list \<times> (py_exception + WeatherResponse option)" where
  "fetch_weather rt cfg w corrected_city s =
     (let url = weather_url cfg corrected_city in
      case fetch_data_from_cwa w url of
        Inl e \<Rightarrow> (s, [FetchCWA url], Inr (Some (error_response rt corrected_city e)))
      | Inr data \<Rightarrow>
          (case build_response rt cfg w corrected_city data of
             Inl e \<Rightarrow> (s, [FetchCWA url], Inr (Some (error_response rt corrected_city e)))
           | Inr None \<Rightarrow> (s, [FetchCWA url], Inr (Some (no_forecast_response corrected_city)))
           | Inr (Some resp) \<Rightarrow>
               (s\<lparr>weather_data_cache :=
                    (weather_data_cache s)(corrected_city \<mapsto>
                       \<lparr>response = resp, timestamp = now_store w\<rparr>)\<rparr>,
                [FetchCWA url], Inr (Some resp))))"

text \<open>
  \<open>get_current_weather\<close>: the state left behind, the calls made, and the exception that
  escaped or the value returned. The call of \<open>_auto_correct_city\<close> on line 94 is outside
  every \<open>try\<close>. \<open>not corrected_city\<close> holds for \<open>None\<close> and for the empty string.
\<close>

definition get_current_weather :: "py_runtime \<Rightarrow> settings \<Rightarrow> world \<Rightarrow> pystr \<Rightarrow> weather_state \<Rightarrow>
    weather_state \<times> event list \<times> (py_exception + WeatherResponse option)" where
  "get_current_weather rt cfg w city_input s =
     (if \<exists>char \<in> set city_input. str_isdigit rt char then
        (s, [], Inr (Some (invalid_input_response city_input)))
      else
        (case get_all_location_names cfg w s of (s1, calls, available_locations) \<Rightarrow>
           (case auto_correct_city rt cfg city_input available_locations of
              Inl e \<Rightarrow> (s1, calls @ [AutoCorrectCity city_input], Inl e)
            | Inr corrected \<Rightarrow>
                if corrected = None \<or> corrected = Some [] then
                  (s1, calls @ [AutoCorrectCity city_input],
                   Inr (Some (unrecognised_response city_input)))
                else
                  (let corrected_city = the corrected;
                       hit = (case weather_data_cache s1 corrected_city of
                                None \<Rightarrow> None
                              | Some cached_data \<Rightarrow>
                                  if fresh (now_check w) cached_data
                                  then Some (response cached_data) else None)
                   in case hit of
                        Some resp \<Rightarrow> (s1, calls @ [AutoCorrectCity city_input], Inr (Some resp))
                      | None \<Rightarrow>
                          (case fetch_weather rt cfg w corrected_city s1 of (s2, calls2, r) \<Rightarrow>
                             (s2, calls @ [AutoCorrectCity city_input] @ calls2, r))))))"

section \<open>Notions of the specification\<close>

subsection \<open>The pool invariant of the music service\<close>

text \<open>
  A video of the universe is in the unplayed list exactly when its \<open>played\<close> flag is
  \<open>False\<close>, and the unplayed list holds videos of the universe only.
\<close>

definition played_inv :: "music_state \<Rightarrow> bool" where
  "played_inv s =
     ((\<forall>a \<in> set (all_available_videos s).
         (a \<in> set (unplayed_videos s)) = (\<not> played (heap s a)))
      \<and> set (unplayed_videos s) \<subseteq> set (all_available_videos s))"

text \<open>
  The invariant as it is maintained: in addition, neither list holds an object twice.
\<close>

definition pool_inv :: "music_state \<Rightarrow> bool" where
  "pool_inv s =
     (distinct (all_available_videos s) \<and> distinct (unplayed_videos s) \<and> played_inv s)"

text \<open>
  The states the service can be in: the module as imported (both lists empty), and what
  the loader and the two serve functions, called with any arguments, make of a state
  already reached.
\<close>

inductive reachable :: "music_state \<Rightarrow> bool" where
  imported: "reachable \<lparr>heap = h, all_available_videos = [], unplayed_videos = []\<rparr>"
| loaded: "reachable s \<Longrightarrow> reachable (load_videos_data file s)"
| matched: "reachable s \<Longrightarrow>
            reachable (fst (find_and_recommend_music_by_desc rt file weather_desc s))"
| random: "reachable s \<Longrightarrow> reachable (fst (get_random_music_recommendation file rnd s))"

subsection \<open>Consecutive random serves\<close>

text \<open>One call per random draw, each on the state the previous one left; the values returned.\<close>

fun music_cycle :: "VideoData list option \<Rightarrow> nat list \<Rightarrow> music_state \<Rightarrow>
    music_state \<times> (py_exception + MusicRecommendation option) list" where
  "music_cycle file [] s = (s, [])"
| "music_cycle file (rnd # rnds) s =
     (case get_random_music_recommendation file rnd s of (s1, r) \<Rightarrow>
        (case music_cycle file rnds s1 of (s2, rs) \<Rightarrow> (s2, r # rs)))"

fun movie_cycle :: "py_runtime \<Rightarrow> pystr list option \<Rightarrow> (pystr \<Rightarrow> pystr) \<Rightarrow> nat list \<Rightarrow>
    movie_state \<Rightarrow> movie_state \<times> (py_exception + MovieRecommendation option) list" where
  "movie_cycle rt listing url_for [] s = (s, [])"
| "movie_cycle rt listing url_for (rnd # rnds) s =
     (case get_random_movie_poster rt listing url_for rnd s of (s1, r) \<Rightarrow>
        (case movie_cycle rt listing url_for rnds s1 of (s2, rs) \<Rightarrow> (s2, r # rs)))"

subsection \<open>The serve operations without recursion\<close>

text \<open>
  The form the specification gives: if remaining is empty at the start of the serve
  call, refill it from the universe, then proceed.
\<close>

definition guarded_random_music :: "VideoData list option \<Rightarrow> nat \<Rightarrow> music_state \<Rightarrow>
    music_state \<times> (py_exception + MusicRecommendation option)" where
  "guarded_random_music file rnd s =
     (let s1 = ensure_loaded file s in
      if all_available_videos s1 = [] then (s1, Inr (Some not_initialised))
      else random_body rnd (if unplayed_videos s1 = [] then refill s1 else s1))"

definition guarded_match_music :: "py_runtime \<Rightarrow> VideoData list option \<Rightarrow> pystr \<Rightarrow> music_state \<Rightarrow>
    music_state \<times> (py_exception + MusicRecommendation option)" where
  "guarded_match_music rt file weather_desc s =
     (let s1 = ensure_loaded file s in
      if all_available_videos s1 = [] then (s1, Inr (Some not_initialised))
      else match_body rt weather_desc (if unplayed_videos s1 = [] then refill s1 else s1))"

definition guarded_random_movie :: "py_runtime \<Rightarrow> pystr list option \<Rightarrow> (pystr \<Rightarrow> pystr) \<Rightarrow> nat \<Rightarrow>
    movie_state \<Rightarrow> movie_state \<times> (py_exception + MovieRecommendation option)" where
  "guarded_random_movie rt listing url_for rnd s =
     (let s1 = ensure_posters rt listing s in
      if all_movie_posters s1 = [] then (s1, Inr (Some no_posters))
      else poster_body rt url_for rnd
             (if unrecommended_posters s1 = [] then s1\<lparr>unrecommended_posters := all_movie_posters s1\<rparr>
              else s1))"

text \<open>The guards under which the source takes its recursive branch.\<close>

definition music_recurses :: "VideoData list option \<Rightarrow> music_state \<Rightarrow> bool" where
  "music_recurses file s =
     (all_available_videos (ensure_loaded file s) \<noteq> [] \<and> unplayed_videos (ensure_loaded file s) = [])"

definition movie_recurses :: "py_runtime \<Rightarrow> pystr list option \<Rightarrow> movie_state \<Rightarrow> bool" where
  "movie_recurses rt listing s =
     (all_movie_posters (ensure_posters rt listing s) \<noteq> []
      \<and> unrecommended_posters (ensure_posters rt listing s) = [])"

subsection \<open>Sample values\<close>

text \<open>
  A runtime in which a partial ratio is 100 when the first string occurs in the second
  and 0 otherwise, a ratio is 100 for equal strings, 80 when the first occurs in the
  second and 0 otherwise, \<open>extractOne\<close> is that of fuzzywuzzy, one start time parses,
  and the other library functions are the identity.
\<close>

definition sample_ratio :: "pystr \<Rightarrow> pystr \<Rightarrow> int" where
  "sample_ratio a b = (if a = b then 100 else if str_contains a b then 80 else 0)"

definition sample_runtime :: py_runtime where
  "sample_runtime =
     \<lparr>str_lower = (\<lambda>x. x),
      str_isdigit = (\<lambda>c. 48 \<le> c \<and> c \<le> 57),
      fuzz_partial_ratio = (\<lambda>a b. if str_contains a b then 100 else 0),
      fuzz_ratio = sample_ratio,
      full_process = (\<lambda>x. x),
      process_extractOne = fuzzywuzzy_extractOne (\<lambda>x. x) sample_ratio,
      strptime = (\<lambda>x. if x = asc ''2024-05-01 06:00:00''
                       then Some \<lparr>dt_us = 0, dt_month = 5, dt_day = 1, dt_hour = 6\<rparr> else None),
      exc_str = (\<lambda>e. case e of
                   RequestException m \<Rightarrow> m
                 | KeyError k \<Rightarrow> [39] @ k @ [39]
                 | IndexError \<Rightarrow> asc ''list index out of range''
                 | ValueError \<Rightarrow> asc ''invalid value''
                 | TypeError \<Rightarrow> asc ''invalid type''
                 | OtherException m \<Rightarrow> m),
      splitext_root = (\<lambda>x. x),
      quote = (\<lambda>x. x)\<rparr>"

text \<open>
  Two videos, tagged "rain", "cloudy" and "sunny day, cloudy at times"; the query
  \<open>sunny\<close> is "sunny day".
\<close>

definition rain_video :: VideoData where
  "rain_video = \<lparr>url = asc ''https://a'', description = asc ''rain'',
                  matched_weather_descriptions = [[19979, 38632], [22810, 38642]], played = False\<rparr>"

definition sunny_video :: VideoData where
  "sunny_video = \<lparr>url = asc ''https://b'', description = asc ''sun'',
                   matched_weather_descriptions = [[26228, 22825, 26178, 22810, 38642]],
                   played = False\<rparr>"

definition sunny :: pystr where
  "sunny = [26228, 22825]"

definition sample_heap :: "ref \<Rightarrow> VideoData" where
  "sample_heap a = (if a = 0 then rain_video else sunny_video)"

definition fresh_pool :: music_state where
  "fresh_pool = \<lparr>heap = sample_heap, all_available_videos = [0, 1], unplayed_videos = [0, 1]\<rparr>"

definition played_pool :: music_state where
  "played_pool =
     \<lparr>heap = (\<lambda>a. (sample_heap a)\<lparr>played := True\<rparr>), all_available_videos = [0, 1],
      unplayed_videos = []\<rparr>"

text \<open>A pool whose only video has an empty list of tags.\<close>

definition untagged_pool :: music_state where
  "untagged_pool =
     \<lparr>heap = (\<lambda>a. rain_video\<lparr>matched_weather_descriptions := []\<rparr>),
      all_available_videos = [0], unplayed_videos = [0]\<rparr>"

definition sample_url_for :: "pystr \<Rightarrow> pystr" where
  "sample_url_for path = asc ''http://host/static/'' @ path"

definition sold_out_rack :: movie_state where
  "sold_out_rack =
     \<lparr>all_movie_posters = [asc ''a.png'', asc ''b_c.jpg''], unrecommended_posters = []\<rparr>"

text \<open>
  Settings with the alias of the specification's scenario ("Taipei" in its everyday
  spelling to the canonical name of the city), and the names used below: \<open>taipei\<close> is
  the canonical name, \<open>taipei_alias\<close> the everyday spelling, \<open>taipei_short\<close> the
  canonical name without its last character.
\<close>

definition taipei :: pystr where
  "taipei = [33274, 21271, 24066]"

definition taipei_alias :: pystr where
  "taipei_alias = [21488, 21271]"

definition taipei_short :: pystr where
  "taipei_short = [33274, 21271]"

definition sample_settings :: settings where
  "sample_settings =
     \<lparr>CWA_API_KEY = asc ''KEY'', MANUAL_CORRECTIONS = [(taipei_alias, taipei)],
      WEATHER_KEYWORDS_MAP = []\<rparr>"

text \<open>A document with one forecast slot ("sunny day", rain probability 10).\<close>

definition sample_slot :: "pystr \<Rightarrow> cwa_time" where
  "sample_slot v =
     \<lparr>startTime = Some (asc ''2024-05-01 06:00:00''), endTime = Some (asc ''2024-05-01 18:00:00''),
      parameter = Some \<lparr>parameterName = Some v\<rparr>\<rparr>"

definition sample_data :: cwa_data where
  "sample_data =
     \<lparr>records = Some \<lparr>location = Some
        [\<lparr>locationName = Some taipei,
          weatherElement = Some
            [\<lparr>elementName = Some (asc ''Wx''), time = Some [sample_slot sunny]\<rparr>,
             \<lparr>elementName = Some (asc ''PoP''), time = Some [sample_slot (asc ''10'')]\<rparr>]\<rparr>]\<rparr>\<rparr>"

text \<open>
  A world where the network is up, one where the request times out, and one where the
  document comes without its \<open>records\<close>.
\<close>

definition world_up :: world where
  "world_up = \<lparr>fetch_data_from_cwa = (\<lambda>u. Inr sample_data), now_check = 700000000,
                now_select = (\<lambda>i. 5), now_store = 700000001\<rparr>"

definition world_down :: world where
  "world_down = \<lparr>fetch_data_from_cwa = (\<lambda>u. Inl (RequestException (asc ''timeout''))),
                  now_check = 700000000, now_select = (\<lambda>i. 5), now_store = 700000001\<rparr>"

definition world_malformed :: world where
  "world_malformed = \<lparr>fetch_data_from_cwa = (\<lambda>u. Inr \<lparr>records = None\<rparr>),
                       now_check = 700000000, now_select = (\<lambda>i. 5), now_store = 700000001\<rparr>"

definition old_response :: WeatherResponse where
  "old_response = \<lparr>city_name = taipei, weather_description = asc ''old'',
                    display_text = asc ''old'', current_weather_type = [26228]\<rparr>"

text \<open>
  States with the region list loaded: no cache entry; an entry 100 seconds old at the
  time \<open>now_check\<close> of the worlds above; an entry 700 seconds old.
\<close>

definition cold_state :: weather_state where
  "cold_state = \<lparr>location_names = default_locations, weather_data_cache = Map.empty\<rparr>"

definition warm_state :: weather_state where
  "warm_state = \<lparr>location_names = default_locations,
                  weather_data_cache = [taipei \<mapsto> \<lparr>response = old_response, timestamp = 600000000\<rparr>]\<rparr>"

definition stale_state :: weather_state where
  "stale_state = \<lparr>location_names = default_locations,
                   weather_data_cache = [taipei \<mapsto> \<lparr>response = old_response, timestamp = 0\<rparr>]\<rparr>"

section \<open>Properties\<close>

subsection \<open>Auxiliary facts about the music service\<close>

lemma py_max_Max:
  assumes "xs \<noteq> []"
  shows "py_max xs = Inr (Max (set xs))"
proof (cases xs)
  case Nil
  with assms show ?thesis by simp
next
  case (Cons a list)
  have "fold max list a = Max (set (a # list))" by (rule Max.set_eq_fold[symmetric])
  with Cons show ?thesis by simp
qed


lemma best_scan_result:
  assumes "\<forall>r \<in> set xs. matched_weather_descriptions (h r) \<noteq> []"
  shows "(best_scan rt h q xs (bm, bs) = Inr (bm, bs) \<and> (\<forall>r \<in> set xs. video_score rt q (h r) \<le> bs))
       \<or> (\<exists>pre b post. xs = pre @ b # post
             \<and> (\<forall>r \<in> set pre. video_score rt q (h r) < video_score rt q (h b))
             \<and> (\<forall>r \<in> set post. video_score rt q (h r) \<le> video_score rt q (h b))
             \<and> bs < video_score rt q (h b)
             \<and> best_scan rt h q xs (bm, bs) = Inr (Some b, video_score rt q (h b)))"
  using assms
proof (induction xs arbitrary: bm bs)
  case Nil
  then show ?case by simp
next
  case (Cons x xs)
  have nx: "tag_scores rt q (h x) \<noteq> []" using Cons.prems by (simp add: tag_scores_def)
  have mx: "py_max (tag_scores rt q (h x)) = Inr (video_score rt q (h x))"
    using py_max_Max[OF nx] by (simp add: video_score_def)
  have tl: "\<forall>r \<in> set xs. matched_weather_descriptions (h r) \<noteq> []" using Cons.prems by simp
  show ?case
  proof (cases "video_score rt q (h x) > bs")
    case True
    from Cons.IH[OF tl, of "Some x" "video_score rt q (h x)"]
    show ?thesis
    proof
      assume a: "best_scan rt h q xs (Some x, video_score rt q (h x)) = Inr (Some x, video_score rt q (h x)) \<and>
        (\<forall>r\<in>set xs. video_score rt q (h r) \<le> video_score rt q (h x))"
      have "x # xs = [] @ x # xs" by simp
      with a True mx show ?thesis by (intro disjI2 exI[of _ "[]"] exI[of _ x] exI[of _ xs]) simp
    next
      assume "\<exists>pre b post. xs = pre @ b # post \<and>
        (\<forall>r\<in>set pre. video_score rt q (h r) < video_score rt q (h b)) \<and>
        (\<forall>r\<in>set post. video_score rt q (h r) \<le> video_score rt q (h b)) \<and>
        video_score rt q (h x) < video_score rt q (h b) \<and>
        best_scan rt h q xs (Some x, video_score rt q (h x)) = Inr (Some b, video_score rt q (h b))"
      then obtain pre b post where d: "xs = pre @ b # post"
        "\<forall>r\<in>set pre. video_score rt q (h r) < video_score rt q (h b)"
        "\<forall>r\<in>set post. video_score rt q (h r) \<le> video_score rt q (h b)"
        "video_score rt q (h x) < video_score rt q (h b)"
        "best_scan rt h q xs (Some x, video_score rt q (h x)) = Inr (Some b, video_score rt q (h b))"
        by blast
      with True mx show ?thesis
        by (intro disjI2 exI[of _ "x # pre"] exI[of _ b] exI[of _ post]) auto
    qed
  next
    case False
    from Cons.IH[OF tl, of bm bs]
    show ?thesis
    proof
      assume "best_scan rt h q xs (bm, bs) = Inr (bm, bs) \<and> (\<forall>r\<in>set xs. video_score rt q (h r) \<le> bs)"
      with False mx show ?thesis by simp
    next
      assume "\<exists>pre b post. xs = pre @ b # post \<and>
        (\<forall>r\<in>set pre. video_score rt q (h r) < video_score rt q (h b)) \<and>
        (\<forall>r\<in>set post. video_score rt q (h r) \<le> video_score rt q (h b)) \<and>
        bs < video_score rt q (h b) \<and>
        best_scan rt h q xs (bm, bs) = Inr (Some b, video_score rt q (h b))"
      then obtain pre b post where d: "xs = pre @ b # post"
        "\<forall>r\<in>set pre. video_score rt q (h r) < video_score rt q (h b)"
        "\<forall>r\<in>set post. video_score rt q (h r) \<le> video_score rt q (h b)"
        "bs < video_score rt q (h b)"
        "best_scan rt h q xs (bm, bs) = Inr (Some b, video_score rt q (h b))"
        by blast
      with False mx show ?thesis
        by (intro disjI2 exI[of _ "x # pre"] exI[of _ b] exI[of _ post]) auto
    qed
  qed
qed


lemma video_score_played [simp]: "video_score rt q (v\<lparr>played := p\<rparr>) = video_score rt q v"
  by (simp add: video_score_def tag_scores_def)

lemma list_remove_first:
  assumes "\<forall>r \<in> set pre. r \<noteq> x \<and> h r \<noteq> h x"
  shows "list_remove h x (pre @ x # post) = Some (pre @ post)"
  using assms by (induction pre) simp_all

lemma list_remove_mem: "x \<in> set xs \<Longrightarrow> list_remove h x xs \<noteq> None"
  by (induction xs) (auto split: option.splits)

lemma find_nonempty:
  "all_available_videos s \<noteq> [] \<Longrightarrow> unplayed_videos s \<noteq> [] \<Longrightarrow>
   find_and_recommend_music_by_desc rt file q s = match_body rt q s"
  by (subst find_and_recommend_music_by_desc.simps) (simp add: ensure_loaded_def)

lemma find_exhausted:
  "all_available_videos s \<noteq> [] \<Longrightarrow> unplayed_videos s = [] \<Longrightarrow>
   find_and_recommend_music_by_desc rt file q s = match_body rt q (refill s)"
  by (subst find_and_recommend_music_by_desc.simps)
     (simp add: ensure_loaded_def find_nonempty refill_def)

lemma random_nonempty:
  "all_available_videos s \<noteq> [] \<Longrightarrow> unplayed_videos s \<noteq> [] \<Longrightarrow>
   get_random_music_recommendation file rnd s = random_body rnd s"
  by (subst get_random_music_recommendation.simps) (simp add: ensure_loaded_def)

lemma random_exhausted:
  "all_available_videos s \<noteq> [] \<Longrightarrow> unplayed_videos s = [] \<Longrightarrow>
   get_random_music_recommendation file rnd s = random_body rnd (refill s)"
  by (subst get_random_music_recommendation.simps)
     (simp add: ensure_loaded_def random_nonempty refill_def)

lemma match_body_None:
  "snd (match_body rt q s) = Inr None \<Longrightarrow> fst (match_body rt q s) = s"
  by (auto simp: match_body_def Let_def split: sum.splits option.splits prod.splits if_splits)

lemma first_max_exists:
  fixes f :: "'a \<Rightarrow> int"
  assumes "xs \<noteq> []"
  shows "\<exists>pre b post. xs = pre @ b # post \<and> (\<forall>r \<in> set pre. f r < f b) \<and> (\<forall>r \<in> set post. f r \<le> f b)"
  using assms
proof (induction xs)
  case Nil
  then show ?case by simp
next
  case (Cons x xs)
  show ?case
  proof (cases "xs = []")
    case True
    then show ?thesis by (intro exI[of _ "[]"] exI[of _ x]) simp
  next
    case False
    from Cons.IH[OF False] obtain pre b post where d: "xs = pre @ b # post"
      "\<forall>r \<in> set pre. f r < f b" "\<forall>r \<in> set post. f r \<le> f b" by blast
    show ?thesis
    proof (cases "f x < f b")
      case True
      with d show ?thesis by (intro exI[of _ "x # pre"] exI[of _ b] exI[of _ post]) auto
    next
      case False
      with d show ?thesis by (intro exI[of _ "[]"] exI[of _ x] exI[of _ xs]) force
    qed
  qed
qed

lemma match_body_served:
  assumes scan: "best_scan rt (heap s) q (unplayed_videos s) (None, -1)
                   = Inr (Some b, video_score rt q (heap s b))"
    and dec: "unplayed_videos s = pre @ b # post"
    and pre: "\<forall>r \<in> set pre. video_score rt q (heap s r) < video_score rt q (heap s b)"
    and thr: "70 \<le> video_score rt q (heap s b)"
  shows "match_body rt q s =
           (s\<lparr>heap := mark_played b (heap s), unplayed_videos := pre @ post\<rparr>,
            Inr (Some (matched_recommendation q (heap s b))))"
proof -
  let ?h = "mark_played b (heap s)"
  have "\<forall>r \<in> set pre. r \<noteq> b \<and> ?h r \<noteq> ?h b"
  proof
    fix r assume r: "r \<in> set pre"
    with pre have lt: "video_score rt q (heap s r) < video_score rt q (heap s b)" by simp
    then have ne: "r \<noteq> b" by auto
    have "?h r \<noteq> ?h b"
    proof
      assume "?h r = ?h b"
      with ne have "heap s r = (heap s b)\<lparr>played := True\<rparr>" by (simp add: mark_played_def)
      then have "video_score rt q (heap s r) = video_score rt q (heap s b)" by simp
      with lt show False by simp
    qed
    with ne show "r \<noteq> b \<and> ?h r \<noteq> ?h b" by simp
  qed
  then have rm: "list_remove ?h b (unplayed_videos s) = Some (pre @ post)"
    unfolding dec by (rule list_remove_first)
  have rec: "matched_recommendation q (?h b) = matched_recommendation q (heap s b)"
    by (simp add: matched_recommendation_def mark_played_def)
  show ?thesis
    using scan thr rm rec by (simp add: match_body_def Let_def)
qed

lemma serve_by_match_core:
  assumes ne: "unplayed_videos s \<noteq> []"
    and tags: "\<forall>r \<in> set (unplayed_videos s). matched_weather_descriptions (heap s r) \<noteq> []"
  shows "\<exists>pre b post. unplayed_videos s = pre @ b # post
           \<and> (\<forall>r \<in> set pre. video_score rt q (heap s r) < video_score rt q (heap s b))
           \<and> (\<forall>r \<in> set post. video_score rt q (heap s r) \<le> video_score rt q (heap s b))
           \<and> match_body rt q s =
               (if 70 \<le> video_score rt q (heap s b)
                then (s\<lparr>heap := mark_played b (heap s), unplayed_videos := pre @ post\<rparr>,
                      Inr (Some (matched_recommendation q (heap s b))))
                else (s, Inr None))"
proof -
  from best_scan_result[OF tags, of rt q None "-1"]
  show ?thesis
  proof
    assume a: "best_scan rt (heap s) q (unplayed_videos s) (None, -1) = Inr (None, -1) \<and>
      (\<forall>r\<in>set (unplayed_videos s). video_score rt q (heap s r) \<le> -1)"
    from first_max_exists[OF ne, of "\<lambda>r. video_score rt q (heap s r)"]
    obtain pre b post where d: "unplayed_videos s = pre @ b # post"
      "\<forall>r \<in> set pre. video_score rt q (heap s r) < video_score rt q (heap s b)"
      "\<forall>r \<in> set post. video_score rt q (heap s r) \<le> video_score rt q (heap s b)" by blast
    from a d(1) have "video_score rt q (heap s b) \<le> -1" by simp
    then have low: "\<not> 70 \<le> video_score rt q (heap s b)" by simp
    from a have "match_body rt q s = (s, Inr None)" by (simp add: match_body_def)
    with d low show ?thesis by (intro exI[of _ pre] exI[of _ b] exI[of _ post]) simp
  next
    assume "\<exists>pre b post. unplayed_videos s = pre @ b # post \<and>
      (\<forall>r\<in>set pre. video_score rt q (heap s r) < video_score rt q (heap s b)) \<and>
      (\<forall>r\<in>set post. video_score rt q (heap s r) \<le> video_score rt q (heap s b)) \<and>
      -1 < video_score rt q (heap s b) \<and>
      best_scan rt (heap s) q (unplayed_videos s) (None, -1) = Inr (Some b, video_score rt q (heap s b))"
    then obtain pre b post where d: "unplayed_videos s = pre @ b # post"
      "\<forall>r\<in>set pre. video_score rt q (heap s r) < video_score rt q (heap s b)"
      "\<forall>r\<in>set post. video_score rt q (heap s r) \<le> video_score rt q (heap s b)"
      "best_scan rt (heap s) q (unplayed_videos s) (None, -1) = Inr (Some b, video_score rt q (heap s b))"
      by blast
    show ?thesis
    proof (cases "70 \<le> video_score rt q (heap s b)")
      case True
      from match_body_served[OF d(4) d(1) d(2) True] d True show ?thesis
        by (intro exI[of _ pre] exI[of _ b] exI[of _ post]) simp
    next
      case False
      with d(4) have "match_body rt q s = (s, Inr None)" by (simp add: match_body_def)
      with d False show ?thesis by (intro exI[of _ pre] exI[of _ b] exI[of _ post]) simp
    qed
  qed
qed

subsection \<open>Auxiliary facts about refilling and the recursion\<close>

lemma find_eq_guarded:
  "find_and_recommend_music_by_desc rt file q s = guarded_match_music rt file q s"
proof -
  let ?s1 = "ensure_loaded file s"
  show ?thesis
  proof (cases "all_available_videos ?s1 \<noteq> [] \<and> unplayed_videos ?s1 = []")
    case True
    then have "find_and_recommend_music_by_desc rt file q (refill ?s1) = match_body rt q (refill ?s1)"
      by (intro find_nonempty) (simp_all add: refill_def)
    with True show ?thesis
      by (subst find_and_recommend_music_by_desc.simps) (simp add: guarded_match_music_def)
  next
    case False
    then show ?thesis
      by (subst find_and_recommend_music_by_desc.simps) (auto simp: guarded_match_music_def Let_def)
  qed
qed

lemma random_eq_guarded:
  "get_random_music_recommendation file rnd s = guarded_random_music file rnd s"
proof -
  let ?s1 = "ensure_loaded file s"
  show ?thesis
  proof (cases "all_available_videos ?s1 \<noteq> [] \<and> unplayed_videos ?s1 = []")
    case True
    then have "get_random_music_recommendation file rnd (refill ?s1) = random_body rnd (refill ?s1)"
      by (intro random_nonempty) (simp_all add: refill_def)
    with True show ?thesis
      by (subst get_random_music_recommendation.simps) (simp add: guarded_random_music_def)
  next
    case False
    then show ?thesis
      by (subst get_random_music_recommendation.simps) (auto simp: guarded_random_music_def Let_def)
  qed
qed

lemma poster_nonempty:
  "all_movie_posters s \<noteq> [] \<Longrightarrow> unrecommended_posters s \<noteq> [] \<Longrightarrow>
   get_random_movie_poster rt listing url_for rnd s = poster_body rt url_for rnd s"
  by (subst get_random_movie_poster.simps) (simp add: ensure_posters_def)

lemma poster_eq_guarded:
  "get_random_movie_poster rt listing url_for rnd s = guarded_random_movie rt listing url_for rnd s"
proof -
  let ?s1 = "ensure_posters rt listing s"
  let ?s2 = "?s1\<lparr>unrecommended_posters := all_movie_posters ?s1\<rparr>"
  show ?thesis
  proof (cases "all_movie_posters ?s1 \<noteq> [] \<and> unrecommended_posters ?s1 = []")
    case True
    then have "get_random_movie_poster rt listing url_for rnd ?s2 = poster_body rt url_for rnd ?s2"
      by (intro poster_nonempty) simp_all
    with True show ?thesis
      by (subst get_random_movie_poster.simps) (simp add: guarded_random_movie_def)
  next
    case False
    then show ?thesis
      by (subst get_random_movie_poster.simps) (auto simp: guarded_random_movie_def Let_def)
  qed
qed

lemma random_choice_mem: "xs \<noteq> [] \<Longrightarrow> random_choice rnd xs \<in> set xs"
  by (simp add: random_choice_def)

lemma random_body_returns:
  assumes "unplayed_videos s \<noteq> []"
  shows "\<exists>r. snd (random_body rnd s) = Inr (Some r) \<and> mr_url r \<noteq> None"
proof -
  let ?c = "random_choice rnd (unplayed_videos s)"
  from assms have "?c \<in> set (unplayed_videos s)" by (rule random_choice_mem)
  then obtain rest where "list_remove (mark_played ?c (heap s)) ?c (unplayed_videos s) = Some rest"
    using list_remove_mem by fastforce
  with assms show ?thesis
    by (simp add: random_body_def Let_def random_recommendation_def)
qed

lemma poster_body_step:
  assumes "unrecommended_posters s \<noteq> []"
  shows "poster_body rt url_for rnd s =
           (s\<lparr>unrecommended_posters :=
                remove1 (random_choice rnd (unrecommended_posters s)) (unrecommended_posters s)\<rparr>,
            Inr (Some (poster_recommendation rt url_for (random_choice rnd (unrecommended_posters s)))))"
  using assms random_choice_mem[OF assms, of rnd]
  by (simp add: poster_body_def Let_def str_list_remove_def)

subsection \<open>Auxiliary facts about the pool invariant\<close>

lemma list_remove_distinct:
  assumes "x \<in> set xs" and "\<forall>r \<in> set xs. r \<noteq> x \<longrightarrow> h r \<noteq> h x"
  shows "list_remove h x xs = Some (remove1 x xs)"
  using assms by (induction xs) auto

lemma list_remove_marked:
  assumes "x \<in> set xs" and "\<forall>r \<in> set xs. \<not> played (h r)"
  shows "list_remove (mark_played x h) x xs = Some (remove1 x xs)"
proof (rule list_remove_distinct[OF assms(1)])
  show "\<forall>r \<in> set xs. r \<noteq> x \<longrightarrow> mark_played x h r \<noteq> mark_played x h x"
  proof (intro ballI impI)
    fix r assume r: "r \<in> set xs" "r \<noteq> x"
    with assms(2) have "\<not> played (mark_played x h r)" by (simp add: mark_played_def)
    moreover have "played (mark_played x h x)" by (simp add: mark_played_def)
    ultimately show "mark_played x h r \<noteq> mark_played x h x" by metis
  qed
qed

lemma pool_inv_unplayed_flags:
  "pool_inv s \<Longrightarrow> \<forall>r \<in> set (unplayed_videos s). \<not> played (heap s r)"
  by (auto simp: pool_inv_def played_inv_def)

lemma pool_inv_serve:
  assumes inv: "pool_inv s" and c: "c \<in> set (unplayed_videos s)"
  shows "pool_inv (s\<lparr>heap := mark_played c (heap s), unplayed_videos := remove1 c (unplayed_videos s)\<rparr>)"
  using assms by (auto simp: pool_inv_def played_inv_def mark_played_def)

lemma pool_inv_refill: "distinct (all_available_videos s) \<Longrightarrow> pool_inv (refill s)"
  by (simp add: pool_inv_def played_inv_def refill_def reset_played_def)

lemma pool_inv_load: "pool_inv s \<Longrightarrow> pool_inv (load_videos_data file s)"
  by (auto simp: pool_inv_def played_inv_def load_videos_data_def split: option.splits)

lemma pool_inv_ensure_loaded: "pool_inv s \<Longrightarrow> pool_inv (ensure_loaded file s)"
  by (simp add: ensure_loaded_def pool_inv_load)

lemma random_body_step:
  assumes inv: "pool_inv s" and ne: "unplayed_videos s \<noteq> []"
  shows "random_body rnd s =
           (s\<lparr>heap := mark_played (random_choice rnd (unplayed_videos s)) (heap s),
              unplayed_videos := remove1 (random_choice rnd (unplayed_videos s)) (unplayed_videos s)\<rparr>,
            Inr (Some (random_recommendation (heap s (random_choice rnd (unplayed_videos s))))))"
proof -
  let ?c = "random_choice rnd (unplayed_videos s)"
  have c: "?c \<in> set (unplayed_videos s)" using ne by (rule random_choice_mem)
  have rm: "list_remove (mark_played ?c (heap s)) ?c (unplayed_videos s) = Some (remove1 ?c (unplayed_videos s))"
    using c pool_inv_unplayed_flags[OF inv] by (rule list_remove_marked)
  have "random_recommendation (mark_played ?c (heap s) ?c) = random_recommendation (heap s ?c)"
    by (simp add: random_recommendation_def mark_played_def)
  with ne rm show ?thesis by (simp add: random_body_def Let_def)
qed

lemma pool_inv_random_body: "pool_inv s \<Longrightarrow> pool_inv (fst (random_body rnd s))"
proof (cases "unplayed_videos s = []")
  case True
  assume "pool_inv s"
  with True show ?thesis by (simp add: random_body_def)
next
  case False
  assume inv: "pool_inv s"
  from random_body_step[OF inv False, of rnd] pool_inv_serve[OF inv random_choice_mem[OF False, of rnd]]
  show ?thesis by simp
qed

lemma best_scan_mem:
  "best_scan rt h q xs (bm, bs) = Inr (Some b, sc) \<Longrightarrow> b \<in> set xs \<or> bm = Some b"
proof (induction xs arbitrary: bm bs)
  case Nil
  then show ?case by simp
next
  case (Cons x xs)
  then show ?case by (fastforce split: sum.splits if_splits)
qed

lemma pool_inv_match_body: "pool_inv s \<Longrightarrow> pool_inv (fst (match_body rt q s))"
proof -
  assume inv: "pool_inv s"
  show ?thesis
  proof (cases "best_scan rt (heap s) q (unplayed_videos s) (None, -1)")
    case (Inl e)
    with inv show ?thesis by (simp add: match_body_def)
  next
    case (Inr res)
    obtain bm bs where res: "res = (bm, bs)" by (cases res)
    show ?thesis
    proof (cases bm)
      case None
      with Inr res inv show ?thesis by (simp add: match_body_def)
    next
      case (Some b)
      with Inr res best_scan_mem[of rt "heap s" q "unplayed_videos s" None "-1" b bs]
      have b: "b \<in> set (unplayed_videos s)" by simp
      have rm: "list_remove (mark_played b (heap s)) b (unplayed_videos s) = Some (remove1 b (unplayed_videos s))"
        using b pool_inv_unplayed_flags[OF inv] by (rule list_remove_marked)
      from Inr res Some rm inv pool_inv_serve[OF inv b] show ?thesis
        by (simp add: match_body_def Let_def)
    qed
  qed
qed

lemma pool_inv_distinct_all: "pool_inv s \<Longrightarrow> distinct (all_available_videos s)"
  by (simp add: pool_inv_def)

lemma pool_inv_find: "pool_inv s \<Longrightarrow> pool_inv (fst (find_and_recommend_music_by_desc rt file q s))"
  using pool_inv_ensure_loaded[of s "file"]
  by (simp add: find_eq_guarded guarded_match_music_def Let_def pool_inv_match_body
      pool_inv_refill pool_inv_distinct_all)

lemma pool_inv_random: "pool_inv s \<Longrightarrow> pool_inv (fst (get_random_music_recommendation file rnd s))"
  using pool_inv_ensure_loaded[of s "file"]
  by (simp add: random_eq_guarded guarded_random_music_def Let_def pool_inv_random_body
      pool_inv_refill pool_inv_distinct_all)

lemma reachable_pool_inv: "reachable s \<Longrightarrow> pool_inv s"
proof (induction rule: reachable.induct)
  case (imported h)
  show ?case by (simp add: pool_inv_def played_inv_def)
next
  case (loaded s fl)
  then show ?case by (simp add: pool_inv_load)
next
  case (matched s rt fl weather_desc)
  then show ?case by (simp add: pool_inv_find)
next
  case (random s fl rnd)
  then show ?case by (simp add: pool_inv_random)
qed

lemma pool_inv_played: "pool_inv s \<Longrightarrow> played_inv s"
  by (simp add: pool_inv_def)

subsection \<open>Claims about matched serving\<close>

text \<open>
  C2, as amended. When \<open>find_and_recommend_music_by_desc\<close> returns \<open>None\<close> on a loaded
  universe, the pool is exactly as it was if the unplayed list was not empty at the start
  of the call; if it was empty, the call has reset the pool (all flags cleared, the
  unplayed list equal to the universe) and nothing else.
\<close>

theorem no_match_leaves_pool_or_refills:
  assumes "all_available_videos s \<noteq> []"
    and "find_and_recommend_music_by_desc rt file weather_desc s = (s', Inr None)"
  shows "s' = (if unplayed_videos s = [] then refill s else s)"
proof (cases "unplayed_videos s = []")
  case True
  with assms have "match_body rt weather_desc (refill s) = (s', Inr None)"
    by (simp add: find_exhausted)
  with match_body_None[of rt weather_desc "refill s"] True show ?thesis by simp
next
  case False
  with assms have "match_body rt weather_desc s = (s', Inr None)"
    by (simp add: find_nonempty)
  with match_body_None[of rt weather_desc s] False show ?thesis by simp
qed

theorem no_match_leaves_pool_or_refills_witness:
  "all_available_videos played_pool \<noteq> []
   \<and> find_and_recommend_music_by_desc sample_runtime None [38634] played_pool
       = (refill played_pool, Inr None)
   \<and> refill played_pool = (if unplayed_videos played_pool = [] then refill played_pool else played_pool)"
proof -
  have a: "all_available_videos played_pool \<noteq> []" by (simp add: played_pool_def)
  have b: "find_and_recommend_music_by_desc sample_runtime None [38634] played_pool
             = (refill played_pool, Inr None)"
    by (simp add: find_exhausted played_pool_def match_body_def refill_def reset_played_def
        sample_heap_def rain_video_def sunny_video_def tag_scores_def sample_runtime_def)
  from no_match_leaves_pool_or_refills[OF a b] a b show ?thesis by blast
qed

text \<open>
  C2 as stated fails: with every video played and a query that matches no tag, the call
  returns \<open>None\<close> and the unplayed list, empty before, holds the whole universe after.
\<close>

theorem no_match_mutates_counterexample:
  "snd (find_and_recommend_music_by_desc sample_runtime None [38634] played_pool) = Inr None
   \<and> unplayed_videos played_pool = []
   \<and> unplayed_videos (fst (find_and_recommend_music_by_desc sample_runtime None [38634] played_pool))
       = [0, 1]"
  by (simp add: find_exhausted played_pool_def match_body_def refill_def reset_played_def
      sample_heap_def rain_video_def sunny_video_def tag_scores_def sample_runtime_def)

text \<open>
  What matched serving does where every video of the unplayed list has at least one tag
  (loaded universe, non-empty unplayed list), the score of a video being the maximum of
  the fuzzy scores of its tags: the call selects the video \<open>b\<close> whose score is strictly higher than that of every
  video before it in the list and at least that of every video after it. If that score
  is at least 70, exactly this occurrence is removed from the unplayed list, the video is
  marked played and returned; otherwise the call returns \<open>None\<close> and changes nothing.
\<close>

lemma serve_by_match_selects_best:
  assumes "all_available_videos s \<noteq> []"
    and "unplayed_videos s \<noteq> []"
    and "\<forall>r \<in> set (unplayed_videos s). matched_weather_descriptions (heap s r) \<noteq> []"
  shows "\<exists>pre b post. unplayed_videos s = pre @ b # post
           \<and> (\<forall>r \<in> set pre. video_score rt weather_desc (heap s r) < video_score rt weather_desc (heap s b))
           \<and> (\<forall>r \<in> set post. video_score rt weather_desc (heap s r) \<le> video_score rt weather_desc (heap s b))
           \<and> find_and_recommend_music_by_desc rt file weather_desc s =
               (if 70 \<le> video_score rt weather_desc (heap s b)
                then (s\<lparr>heap := mark_played b (heap s), unplayed_videos := pre @ post\<rparr>,
                      Inr (Some (matched_recommendation weather_desc (heap s b))))
                else (s, Inr None))"
  using serve_by_match_core[OF assms(2,3), of rt weather_desc] assms(1,2)
  by (simp add: find_nonempty)

lemma serve_by_match_selects_best_sample:
  "all_available_videos fresh_pool \<noteq> [] \<and> unplayed_videos fresh_pool \<noteq> []
   \<and> list_all (\<lambda>r. matched_weather_descriptions (heap fresh_pool r) \<noteq> [])
         (unplayed_videos fresh_pool)
   \<and> (\<exists>pre b post. unplayed_videos fresh_pool = pre @ b # post
           \<and> (\<forall>r \<in> set pre. video_score sample_runtime sunny (heap fresh_pool r)
                                < video_score sample_runtime sunny (heap fresh_pool b))
           \<and> (\<forall>r \<in> set post. video_score sample_runtime sunny (heap fresh_pool r)
                                \<le> video_score sample_runtime sunny (heap fresh_pool b))
           \<and> find_and_recommend_music_by_desc sample_runtime None sunny fresh_pool =
               (if 70 \<le> video_score sample_runtime sunny (heap fresh_pool b)
                then (fresh_pool\<lparr>heap := mark_played b (heap fresh_pool), unplayed_videos := pre @ post\<rparr>,
                      Inr (Some (matched_recommendation sunny (heap fresh_pool b))))
                else (fresh_pool, Inr None)))"
proof -
  have a: "all_available_videos fresh_pool \<noteq> []" by (simp add: fresh_pool_def)
  have b: "unplayed_videos fresh_pool \<noteq> []" by (simp add: fresh_pool_def)
  have c: "\<forall>r \<in> set (unplayed_videos fresh_pool). matched_weather_descriptions (heap fresh_pool r) \<noteq> []"
    by (simp add: fresh_pool_def sample_heap_def rain_video_def sunny_video_def)
  from serve_by_match_selects_best[OF a b c, of sample_runtime sunny None] a b c
  show ?thesis unfolding list_all_iff by blast
qed

lemma sample_match_serves_sunny_video:
  "find_and_recommend_music_by_desc sample_runtime None sunny fresh_pool =
     (fresh_pool\<lparr>heap := mark_played 1 sample_heap, unplayed_videos := [0]\<rparr>,
      Inr (Some (matched_recommendation sunny sunny_video)))"
  by (simp add: find_nonempty fresh_pool_def match_body_def sample_heap_def rain_video_def
      sunny_video_def tag_scores_def sample_runtime_def sunny_def mark_played_def
      matched_recommendation_def)

text \<open>
  A video without any tag has no score; when the scan reaches one first, \<open>max\<close> raises
  and the call ends with \<open>ValueError\<close>, the pool as it was.
\<close>

lemma untagged_video_raises:
  assumes "all_available_videos s \<noteq> []"
    and "unplayed_videos s = r # rs"
    and "matched_weather_descriptions (heap s r) = []"
  shows "find_and_recommend_music_by_desc rt file weather_desc s = (s, Inl ValueError)"
  using assms by (simp add: find_nonempty match_body_def tag_scores_def)

text \<open>
  C3. The claim has the call, on every non-empty unplayed list, return the best video
  or \<open>None\<close>. The source takes \<open>max\<close> of the tag scores of each video without a case for a
  video whose tag list is empty: on the pool whose only video has no tag the unplayed
  list is not empty and the call returns neither, it raises \<open>ValueError\<close>, which no
  handler of the function or of its caller catches. Where every video has a tag the
  call does what the claim says (lemma \<open>serve_by_match_selects_best\<close>).
\<close>

theorem serve_by_match_untagged_raises:
  "unplayed_videos untagged_pool \<noteq> []
   \<and> find_and_recommend_music_by_desc sample_runtime None sunny untagged_pool
       = (untagged_pool, Inl ValueError)"
  by (simp add: find_nonempty match_body_def tag_scores_def untagged_pool_def)

subsection \<open>Claims about the pool\<close>

lemma fresh_pool_reachable: "reachable fresh_pool"
proof -
  have "fresh_pool = load_videos_data (Some [rain_video, sunny_video])
          \<lparr>heap = sample_heap, all_available_videos = [], unplayed_videos = []\<rparr>"
    by (auto simp: fresh_pool_def load_videos_data_def sample_heap_def rain_video_def
        sunny_video_def fun_eq_iff)
  moreover have "reachable (load_videos_data (Some [rain_video, sunny_video])
          \<lparr>heap = sample_heap, all_available_videos = [], unplayed_videos = []\<rparr>)"
    by (rule reachable.loaded[OF reachable.imported])
  ultimately show ?thesis by (rule ssubst)
qed

text \<open>
  C10. In every state the music service can reach, a video of the universe is in the
  unplayed list exactly when its \<open>played\<close> flag is \<open>False\<close>, and the unplayed list is
  within the universe; the reset on exhaustion, a matched serve and a random serve each
  lead to a state where this holds again.
\<close>

theorem played_flag_invariant:
  assumes "reachable s"
  shows "played_inv s
       \<and> played_inv (refill s)
       \<and> played_inv (fst (find_and_recommend_music_by_desc rt file weather_desc s))
       \<and> played_inv (fst (get_random_music_recommendation file rnd s))"
proof -
  from assms have inv: "pool_inv s" by (rule reachable_pool_inv)
  from inv have "pool_inv (refill s)" by (intro pool_inv_refill pool_inv_distinct_all)
  with inv pool_inv_find[OF inv, of rt "file" weather_desc] pool_inv_random[OF inv, of "file" rnd]
  show ?thesis by (simp add: pool_inv_played)
qed

theorem played_flag_invariant_witness:
  "played_inv fresh_pool
   \<and> played_inv (refill fresh_pool)
   \<and> played_inv (fst (find_and_recommend_music_by_desc sample_runtime None sunny fresh_pool))
   \<and> played_inv (fst (get_random_music_recommendation None 5 fresh_pool))"
  using played_flag_invariant[OF fresh_pool_reachable] .

subsection \<open>Auxiliary facts about a cycle of random serves\<close>

lemma random_recommendation_mark [simp]:
  "random_recommendation (mark_played c h a) = random_recommendation (h a)"
  by (simp add: random_recommendation_def mark_played_def)

lemma random_recommendation_reset [simp]:
  "random_recommendation (reset_played rs h a) = random_recommendation (h a)"
  by (simp add: random_recommendation_def reset_played_def)

lemma music_cycle_serves_unplayed:
  assumes "all_available_videos s \<noteq> []" and "pool_inv s"
    and "length rnds = length (unplayed_videos s)"
  shows "\<exists>as. mset as = mset (unplayed_videos s)
           \<and> snd (music_cycle file rnds s) = map (\<lambda>a. Inr (Some (random_recommendation (heap s a)))) as"
  using assms
proof (induction rnds arbitrary: s)
  case Nil
  then show ?case by simp
next
  case (Cons rnd rnds)
  let ?U = "unplayed_videos s"
  let ?c = "random_choice rnd ?U"
  let ?s1 = "s\<lparr>heap := mark_played ?c (heap s), unplayed_videos := remove1 ?c ?U\<rparr>"
  from Cons.prems have ne: "?U \<noteq> []" by auto
  have c: "?c \<in> set ?U" using ne by (rule random_choice_mem)
  have step: "get_random_music_recommendation file rnd s
                = (?s1, Inr (Some (random_recommendation (heap s ?c))))"
    using random_nonempty[OF Cons.prems(1) ne] random_body_step[OF Cons.prems(2) ne] by simp
  have inv1: "pool_inv ?s1" using Cons.prems(2) c by (rule pool_inv_serve)
  have len1: "length rnds = length (unplayed_videos ?s1)"
    using Cons.prems(3) c by (simp add: length_remove1)
  have all1: "all_available_videos ?s1 \<noteq> []" using Cons.prems(1) by simp
  from Cons.IH[OF all1 inv1 len1] obtain as where as:
    "mset as = mset (unplayed_videos ?s1)"
    "snd (music_cycle file rnds ?s1) = map (\<lambda>a. Inr (Some (random_recommendation (heap ?s1 a)))) as"
    by blast
  have "mset (?c # as) = mset ?U" using as(1) c by simp
  moreover have "snd (music_cycle file (rnd # rnds) s)
      = map (\<lambda>a. Inr (Some (random_recommendation (heap s a)))) (?c # as)"
    using step as(2) by (simp add: split_beta)
  ultimately show ?case by blast
qed

lemma music_cycle_exhausted:
  assumes "all_available_videos s \<noteq> []" and "unplayed_videos s = []" and "rnds \<noteq> []"
  shows "music_cycle file rnds s = music_cycle file rnds (refill s)"
proof -
  obtain rnd rest where r: "rnds = rnd # rest" using assms(3) by (cases rnds) auto
  have "get_random_music_recommendation file rnd (refill s) = random_body rnd (refill s)"
    using assms(1) by (intro random_nonempty) (simp_all add: refill_def)
  with random_exhausted[OF assms(1,2), of "file" rnd] r show ?thesis by simp
qed

lemma music_full_cycle:
  assumes inv: "pool_inv s" and ne: "all_available_videos s \<noteq> []"
    and start: "unplayed_videos s = [] \<or> set (unplayed_videos s) = set (all_available_videos s)"
    and len: "length rnds = length (all_available_videos s)"
  shows "\<exists>as. mset as = mset (all_available_videos s) \<and> distinct as
           \<and> snd (music_cycle file rnds s) = map (\<lambda>a. Inr (Some (random_recommendation (heap s a)))) as"
proof -
  have d: "distinct (all_available_videos s)" using inv by (rule pool_inv_distinct_all)
  have "\<exists>as. mset as = mset (all_available_videos s)
           \<and> snd (music_cycle file rnds s) = map (\<lambda>a. Inr (Some (random_recommendation (heap s a)))) as"
  proof (cases "unplayed_videos s = []")
    case True
    from len ne have rn: "rnds \<noteq> []" by auto
    have "pool_inv (refill s)" using d by (rule pool_inv_refill)
    moreover have "all_available_videos (refill s) \<noteq> []" using ne by (simp add: refill_def)
    moreover have "length rnds = length (unplayed_videos (refill s))" using len by (simp add: refill_def)
    ultimately obtain as where "mset as = mset (unplayed_videos (refill s))"
      "snd (music_cycle file rnds (refill s))
         = map (\<lambda>a. Inr (Some (random_recommendation (heap (refill s) a)))) as"
      using music_cycle_serves_unplayed[of "refill s" rnds "file"] by blast
    then show ?thesis
      using music_cycle_exhausted[OF ne True rn, of "file"] by (auto simp: refill_def)
  next
    case False
    with start have eq: "set (unplayed_videos s) = set (all_available_videos s)" by simp
    have du: "distinct (unplayed_videos s)" using inv by (simp add: pool_inv_def)
    from eq d du have m: "mset (unplayed_videos s) = mset (all_available_videos s)"
      by (simp add: set_eq_iff_mset_eq_distinct)
    then have "length (unplayed_videos s) = length (all_available_videos s)"
      by (metis size_mset)
    with len have "length rnds = length (unplayed_videos s)" by simp
    from music_cycle_serves_unplayed[OF ne inv this, of "file"] m show ?thesis by simp
  qed
  then obtain as where as: "mset as = mset (all_available_videos s)"
    "snd (music_cycle file rnds s) = map (\<lambda>a. Inr (Some (random_recommendation (heap s a)))) as"
    by blast
  from as(1) d have "distinct as" by (metis mset_eq_imp_distinct_iff)
  with as show ?thesis by blast
qed

lemma music_random_returns_item:
  assumes inv: "pool_inv s" and ne: "all_available_videos s \<noteq> []"
  shows "\<exists>a. a \<in> set (all_available_videos s)
           \<and> snd (get_random_music_recommendation file rnd s)
               = Inr (Some (random_recommendation (heap s a)))"
proof (cases "unplayed_videos s = []")
  case True
  let ?s = "refill s"
  have i: "pool_inv ?s" using inv by (intro pool_inv_refill pool_inv_distinct_all)
  have u: "unplayed_videos ?s \<noteq> []" using ne by (simp add: refill_def)
  have "random_choice rnd (unplayed_videos ?s) \<in> set (all_available_videos s)"
    using random_choice_mem[OF u, of rnd] by (simp add: refill_def)
  moreover have "snd (get_random_music_recommendation file rnd s)
      = Inr (Some (random_recommendation (heap s (random_choice rnd (unplayed_videos ?s)))))"
    using random_exhausted[OF ne True, of "file" rnd] random_body_step[OF i u, of rnd]
    by (simp add: refill_def)
  ultimately show ?thesis by blast
next
  case False
  have "random_choice rnd (unplayed_videos s) \<in> set (all_available_videos s)"
    using random_choice_mem[OF False, of rnd] inv by (auto simp: pool_inv_def played_inv_def)
  moreover have "snd (get_random_music_recommendation file rnd s)
      = Inr (Some (random_recommendation (heap s (random_choice rnd (unplayed_videos s)))))"
    using random_nonempty[OF ne False, of "file" rnd] random_body_step[OF inv False, of rnd] by simp
  ultimately show ?thesis by blast
qed

lemma movie_cycle_serves_remaining:
  assumes "all_movie_posters s \<noteq> []" and "length rnds = length (unrecommended_posters s)"
  shows "\<exists>ps. mset ps = mset (unrecommended_posters s)
           \<and> snd (movie_cycle rt listing url_for rnds s)
               = map (\<lambda>p. Inr (Some (poster_recommendation rt url_for p))) ps"
  using assms
proof (induction rnds arbitrary: s)
  case Nil
  then show ?case by simp
next
  case (Cons rnd rnds)
  let ?U = "unrecommended_posters s"
  let ?c = "random_choice rnd ?U"
  let ?s1 = "s\<lparr>unrecommended_posters := remove1 ?c ?U\<rparr>"
  from Cons.prems have ne: "?U \<noteq> []" by auto
  have c: "?c \<in> set ?U" using ne by (rule random_choice_mem)
  have step: "get_random_movie_poster rt listing url_for rnd s
                = (?s1, Inr (Some (poster_recommendation rt url_for ?c)))"
    using poster_nonempty[OF Cons.prems(1) ne] poster_body_step[OF ne] by simp
  have len1: "length rnds = length (unrecommended_posters ?s1)"
    using Cons.prems(2) c by (simp add: length_remove1)
  have all1: "all_movie_posters ?s1 \<noteq> []" using Cons.prems(1) by simp
  from Cons.IH[OF all1 len1] obtain ps where ps:
    "mset ps = mset (unrecommended_posters ?s1)"
    "snd (movie_cycle rt listing url_for rnds ?s1)
       = map (\<lambda>p. Inr (Some (poster_recommendation rt url_for p))) ps"
    by blast
  have "mset (?c # ps) = mset ?U" using ps(1) c by simp
  moreover have "snd (movie_cycle rt listing url_for (rnd # rnds) s)
      = map (\<lambda>p. Inr (Some (poster_recommendation rt url_for p))) (?c # ps)"
    using step ps(2) by (simp add: split_beta)
  ultimately show ?case by blast
qed

lemma poster_exhausted:
  assumes "all_movie_posters s \<noteq> []" and "unrecommended_posters s = []"
  shows "get_random_movie_poster rt listing url_for rnd s
           = get_random_movie_poster rt listing url_for rnd
               (s\<lparr>unrecommended_posters := all_movie_posters s\<rparr>)"
  using assms
  by (subst get_random_movie_poster.simps) (simp add: ensure_posters_def)

lemma movie_full_cycle:
  assumes ne: "all_movie_posters s \<noteq> []"
    and start: "unrecommended_posters s = [] \<or> mset (unrecommended_posters s) = mset (all_movie_posters s)"
    and len: "length rnds = length (all_movie_posters s)"
  shows "\<exists>ps. mset ps = mset (all_movie_posters s)
           \<and> snd (movie_cycle rt listing url_for rnds s)
               = map (\<lambda>p. Inr (Some (poster_recommendation rt url_for p))) ps"
proof (cases "unrecommended_posters s = []")
  case True
  let ?s = "s\<lparr>unrecommended_posters := all_movie_posters s\<rparr>"
  from len ne obtain rnd rest where r: "rnds = rnd # rest" by (cases rnds) auto
  have "movie_cycle rt listing url_for rnds s = movie_cycle rt listing url_for rnds ?s"
    using poster_exhausted[OF ne True, of rt listing url_for rnd] r by simp
  moreover have "\<exists>ps. mset ps = mset (unrecommended_posters ?s)
           \<and> snd (movie_cycle rt listing url_for rnds ?s)
               = map (\<lambda>p. Inr (Some (poster_recommendation rt url_for p))) ps"
    using ne len by (intro movie_cycle_serves_remaining) simp_all
  ultimately show ?thesis by simp
next
  case False
  with start have m: "mset (unrecommended_posters s) = mset (all_movie_posters s)" by simp
  then have "length (unrecommended_posters s) = length (all_movie_posters s)" by (metis size_mset)
  with len have "length rnds = length (unrecommended_posters s)" by simp
  from movie_cycle_serves_remaining[OF ne this, of rt listing url_for] m show ?thesis by simp
qed

lemma movie_random_returns_item:
  assumes ne: "all_movie_posters s \<noteq> []"
  shows "\<exists>p. snd (get_random_movie_poster rt listing url_for rnd s)
               = Inr (Some (poster_recommendation rt url_for p))"
proof (cases "unrecommended_posters s = []")
  case True
  let ?s = "s\<lparr>unrecommended_posters := all_movie_posters s\<rparr>"
  have "get_random_movie_poster rt listing url_for rnd ?s = poster_body rt url_for rnd ?s"
    using ne by (intro poster_nonempty) simp_all
  with poster_exhausted[OF ne True, of rt listing url_for rnd] poster_body_step[of ?s rt url_for rnd] ne
  show ?thesis by auto
next
  case False
  with poster_nonempty[OF ne False, of rt listing url_for rnd] poster_body_step[OF False, of rt url_for rnd]
  show ?thesis by auto
qed

subsection \<open>Claims about random serving and the recursion\<close>

lemma random_recommendation_fields:
  "random_recommendation v =
     \<lparr>mr_url = Some (url v), mr_description = Some (description v),
      mr_message =
        [24050, 28858, 24744, 38568, 27231, 25512, 34214, 20102, 19968, 39318, 38899, 27138, 65306]
        @ description v\<rparr>"
  by (simp add: random_recommendation_def msg_random_def)

lemma poster_recommendation_fields:
  "poster_recommendation rt url_for p =
     \<lparr>poster_url =
        Some (url_for ([109, 111, 118, 105, 101, 47] @ quote rt p)),
      movie_title = Some (map (\<lambda>c. if c = 95 \<or> c = 45 then 32 else c) (splitext_root rt p)),
      mv_message =
        [28858, 24744, 25512, 34214, 38651, 24433, 65306]
        @ map (\<lambda>c. if c = 95 \<or> c = 45 then 32 else c) (splitext_root rt p)\<rparr>"
  by (simp add: poster_recommendation_def msg_movie_def title_of_def asc_def)

text \<open>
  C1. With a non-empty universe a random serve always returns an item. In the music
  service, from any reachable state, the value returned carries the URL and the
  description of a video of the universe (and the message built from that description);
  in the movie service it carries the URL, title and message built from a poster's file
  name. And a cycle of as many consecutive random serves as the universe has items,
  started with the remaining list full or exhausted, returns, in order, the values of
  the items of a permutation of the universe: every item exactly once, none twice.
\<close>

theorem random_serve_cycle:
  "(reachable s \<and> all_available_videos s \<noteq> [] \<longrightarrow>
      (\<exists>a. a \<in> set (all_available_videos s)
         \<and> snd (get_random_music_recommendation file rnd s)
             = Inr (Some \<lparr>mr_url = Some (url (heap s a)),
                          mr_description = Some (description (heap s a)),
                          mr_message =
                            [24050, 28858, 24744, 38568, 27231, 25512, 34214, 20102, 19968, 39318,
                             38899, 27138, 65306] @ description (heap s a)\<rparr>)))
   \<and> (all_movie_posters ms \<noteq> [] \<longrightarrow>
      (\<exists>p. snd (get_random_movie_poster rt listing url_for rnd ms)
             = Inr (Some \<lparr>poster_url = Some (url_for ([109, 111, 118, 105, 101, 47] @ quote rt p)),
                          movie_title =
                            Some (map (\<lambda>c. if c = 95 \<or> c = 45 then 32 else c) (splitext_root rt p)),
                          mv_message =
                            [28858, 24744, 25512, 34214, 38651, 24433, 65306]
                            @ map (\<lambda>c. if c = 95 \<or> c = 45 then 32 else c) (splitext_root rt p)\<rparr>)))
   \<and> (reachable s \<and> all_available_videos s \<noteq> []
        \<and> (unplayed_videos s = [] \<or> set (unplayed_videos s) = set (all_available_videos s))
        \<and> length rnds = length (all_available_videos s) \<longrightarrow>
      (\<exists>as. mset as = mset (all_available_videos s) \<and> distinct as
         \<and> snd (music_cycle file rnds s)
             = map (\<lambda>a. Inr (Some \<lparr>mr_url = Some (url (heap s a)),
                                    mr_description = Some (description (heap s a)),
                                    mr_message =
                                      [24050, 28858, 24744, 38568, 27231, 25512, 34214, 20102, 19968,
                                       39318, 38899, 27138, 65306] @ description (heap s a)\<rparr>)) as))
   \<and> (all_movie_posters ms \<noteq> []
        \<and> (unrecommended_posters ms = []
            \<or> mset (unrecommended_posters ms) = mset (all_movie_posters ms))
        \<and> length draws = length (all_movie_posters ms) \<longrightarrow>
      (\<exists>ps. mset ps = mset (all_movie_posters ms)
         \<and> snd (movie_cycle rt listing url_for draws ms)
             = map (\<lambda>p. Inr (Some
                     \<lparr>poster_url = Some (url_for ([109, 111, 118, 105, 101, 47] @ quote rt p)),
                      movie_title =
                        Some (map (\<lambda>c. if c = 95 \<or> c = 45 then 32 else c) (splitext_root rt p)),
                      mv_message =
                        [28858, 24744, 25512, 34214, 38651, 24433, 65306]
                        @ map (\<lambda>c. if c = 95 \<or> c = 45 then 32 else c) (splitext_root rt p)\<rparr>)) ps))"
proof (intro conjI impI)
  assume "reachable s \<and> all_available_videos s \<noteq> []"
  then have "\<exists>a. a \<in> set (all_available_videos s)
         \<and> snd (get_random_music_recommendation file rnd s)
             = Inr (Some (random_recommendation (heap s a)))"
    by (intro music_random_returns_item reachable_pool_inv) simp_all
  then show "\<exists>a. a \<in> set (all_available_videos s)
         \<and> snd (get_random_music_recommendation file rnd s)
             = Inr (Some \<lparr>mr_url = Some (url (heap s a)),
                          mr_description = Some (description (heap s a)),
                          mr_message =
                            [24050, 28858, 24744, 38568, 27231, 25512, 34214, 20102, 19968, 39318,
                             38899, 27138, 65306] @ description (heap s a)\<rparr>)"
    unfolding random_recommendation_fields .
next
  assume "all_movie_posters ms \<noteq> []"
  then have "\<exists>p. snd (get_random_movie_poster rt listing url_for rnd ms)
             = Inr (Some (poster_recommendation rt url_for p))"
    by (rule movie_random_returns_item)
  then show "\<exists>p. snd (get_random_movie_poster rt listing url_for rnd ms)
             = Inr (Some \<lparr>poster_url = Some (url_for ([109, 111, 118, 105, 101, 47] @ quote rt p)),
                          movie_title =
                            Some (map (\<lambda>c. if c = 95 \<or> c = 45 then 32 else c) (splitext_root rt p)),
                          mv_message =
                            [28858, 24744, 25512, 34214, 38651, 24433, 65306]
                            @ map (\<lambda>c. if c = 95 \<or> c = 45 then 32 else c) (splitext_root rt p)\<rparr>)"
    unfolding poster_recommendation_fields .
next
  assume "reachable s \<and> all_available_videos s \<noteq> []
        \<and> (unplayed_videos s = [] \<or> set (unplayed_videos s) = set (all_available_videos s))
        \<and> length rnds = length (all_available_videos s)"
  then have "\<exists>as. mset as = mset (all_available_videos s) \<and> distinct as
         \<and> snd (music_cycle file rnds s)
             = map (\<lambda>a. Inr (Some (random_recommendation (heap s a)))) as"
    by (intro music_full_cycle reachable_pool_inv) simp_all
  then show "\<exists>as. mset as = mset (all_available_videos s) \<and> distinct as
         \<and> snd (music_cycle file rnds s)
             = map (\<lambda>a. Inr (Some \<lparr>mr_url = Some (url (heap s a)),
                                    mr_description = Some (description (heap s a)),
                                    mr_message =
                                      [24050, 28858, 24744, 38568, 27231, 25512, 34214, 20102, 19968,
                                       39318, 38899, 27138, 65306] @ description (heap s a)\<rparr>)) as"
    unfolding random_recommendation_fields .
next
  assume "all_movie_posters ms \<noteq> []
        \<and> (unrecommended_posters ms = []
            \<or> mset (unrecommended_posters ms) = mset (all_movie_posters ms))
        \<and> length draws = length (all_movie_posters ms)"
  then have "\<exists>ps. mset ps = mset (all_movie_posters ms)
         \<and> snd (movie_cycle rt listing url_for draws ms)
             = map (\<lambda>p. Inr (Some (poster_recommendation rt url_for p))) ps"
    by (intro movie_full_cycle) simp_all
  then show "\<exists>ps. mset ps = mset (all_movie_posters ms)
         \<and> snd (movie_cycle rt listing url_for draws ms)
             = map (\<lambda>p. Inr (Some
                     \<lparr>poster_url = Some (url_for ([109, 111, 118, 105, 101, 47] @ quote rt p)),
                      movie_title =
                        Some (map (\<lambda>c. if c = 95 \<or> c = 45 then 32 else c) (splitext_root rt p)),
                      mv_message =
                        [28858, 24744, 25512, 34214, 38651, 24433, 65306]
                        @ map (\<lambda>c. if c = 95 \<or> c = 45 then 32 else c) (splitext_root rt p)\<rparr>)) ps"
    unfolding poster_recommendation_fields .
qed

text \<open>
  At the sample pool of two videos, with draws 7 and 4: the permutation of the theorem,
  and the two values as they come out, first the video at address 1, then the one at
  address 0.
\<close>

theorem random_serve_cycle_witness:
  "(\<exists>as. mset as = mset (all_available_videos fresh_pool) \<and> distinct as
         \<and> snd (music_cycle None [7, 4] fresh_pool)
             = map (\<lambda>a. Inr (Some \<lparr>mr_url = Some (url (heap fresh_pool a)),
                                    mr_description = Some (description (heap fresh_pool a)),
                                    mr_message =
                                      [24050, 28858, 24744, 38568, 27231, 25512, 34214, 20102, 19968,
                                       39318, 38899, 27138, 65306]
                                      @ description (heap fresh_pool a)\<rparr>)) as)
   \<and> snd (music_cycle None [7, 4] fresh_pool)
       = [Inr (Some \<lparr>mr_url = Some [104, 116, 116, 112, 115, 58, 47, 47, 98],
                     mr_description = Some [115, 117, 110],
                     mr_message =
                       [24050, 28858, 24744, 38568, 27231, 25512, 34214, 20102, 19968, 39318, 38899,
                        27138, 65306, 115, 117, 110]\<rparr>),
          Inr (Some \<lparr>mr_url = Some [104, 116, 116, 112, 115, 58, 47, 47, 97],
                     mr_description = Some [114, 97, 105, 110],
                     mr_message =
                       [24050, 28858, 24744, 38568, 27231, 25512, 34214, 20102, 19968, 39318, 38899,
                        27138, 65306, 114, 97, 105, 110]\<rparr>)]
   \<and> (\<exists>ps. mset ps = mset (all_movie_posters sold_out_rack)
         \<and> snd (movie_cycle sample_runtime None sample_url_for [3, 9] sold_out_rack)
             = map (\<lambda>p. Inr (Some
                     \<lparr>poster_url =
                        Some (sample_url_for ([109, 111, 118, 105, 101, 47] @ quote sample_runtime p)),
                      movie_title =
                        Some (map (\<lambda>c. if c = 95 \<or> c = 45 then 32 else c)
                                (splitext_root sample_runtime p)),
                      mv_message =
                        [28858, 24744, 25512, 34214, 38651, 24433, 65306]
                        @ map (\<lambda>c. if c = 95 \<or> c = 45 then 32 else c)
                            (splitext_root sample_runtime p)\<rparr>)) ps)"
proof -
  have ne: "all_available_videos fresh_pool \<noteq> []" by (simp add: fresh_pool_def)
  have a: "reachable fresh_pool \<and> all_available_videos fresh_pool \<noteq> []"
    using fresh_pool_reachable ne by (rule conjI)
  have c: "reachable fresh_pool \<and> all_available_videos fresh_pool \<noteq> []
        \<and> (unplayed_videos fresh_pool = []
            \<or> set (unplayed_videos fresh_pool) = set (all_available_videos fresh_pool))
        \<and> length [7, 4 :: nat] = length (all_available_videos fresh_pool)"
  proof -
    have "(unplayed_videos fresh_pool = []
            \<or> set (unplayed_videos fresh_pool) = set (all_available_videos fresh_pool))
        \<and> length [7, 4 :: nat] = length (all_available_videos fresh_pool)"
      by (simp add: fresh_pool_def)
    with a show ?thesis by blast
  qed
  have d: "all_movie_posters sold_out_rack \<noteq> []
        \<and> (unrecommended_posters sold_out_rack = []
            \<or> mset (unrecommended_posters sold_out_rack) = mset (all_movie_posters sold_out_rack))
        \<and> length [3, 9 :: nat] = length (all_movie_posters sold_out_rack)"
    by (simp add: sold_out_rack_def)
  have rc1: "random_choice 7 [0, Suc 0] = Suc 0" by code_simp
  have rc2: "random_choice 4 [0 :: nat] = 0" by code_simp
  have first: "get_random_music_recommendation None 7 fresh_pool
      = (fresh_pool\<lparr>heap := mark_played 1 sample_heap, unplayed_videos := [0]\<rparr>,
         Inr (Some (random_recommendation sunny_video)))"
    using random_body_step[OF reachable_pool_inv[OF fresh_pool_reachable], of 7]
    by (simp add: random_nonempty fresh_pool_def rc1 sample_heap_def)
  have inv1: "pool_inv (fresh_pool\<lparr>heap := mark_played 1 sample_heap, unplayed_videos := [0]\<rparr>)"
    using pool_inv_random[OF reachable_pool_inv[OF fresh_pool_reachable], of None 7] first by simp
  have second: "get_random_music_recommendation None 4
        (fresh_pool\<lparr>heap := mark_played 1 sample_heap, unplayed_videos := [0]\<rparr>)
      = (fresh_pool\<lparr>heap := mark_played 0 (mark_played 1 sample_heap), unplayed_videos := []\<rparr>,
         Inr (Some (random_recommendation rain_video)))"
    using random_body_step[OF inv1, of 4]
    by (simp add: random_nonempty fresh_pool_def rc2 sample_heap_def mark_played_def)
  have e: "snd (music_cycle None [7, 4] fresh_pool)
       = [Inr (Some \<lparr>mr_url = Some [104, 116, 116, 112, 115, 58, 47, 47, 98],
                     mr_description = Some [115, 117, 110],
                     mr_message =
                       [24050, 28858, 24744, 38568, 27231, 25512, 34214, 20102, 19968, 39318, 38899,
                        27138, 65306, 115, 117, 110]\<rparr>),
          Inr (Some \<lparr>mr_url = Some [104, 116, 116, 112, 115, 58, 47, 47, 97],
                     mr_description = Some [114, 97, 105, 110],
                     mr_message =
                       [24050, 28858, 24744, 38568, 27231, 25512, 34214, 20102, 19968, 39318, 38899,
                        27138, 65306, 114, 97, 105, 110]\<rparr>)]"
    using first second
    by (simp add: random_recommendation_fields sunny_video_def rain_video_def asc_def)
  from random_serve_cycle[of fresh_pool None 7 sold_out_rack sample_runtime None sample_url_for
      "[7, 4]" "[3, 9]"] c d e
  show ?thesis by blast
qed

text \<open>
  C4. Each serve function, with its recursive call on exhaustion, computes the same
  state and result as the form without recursion (refill if the remaining list is empty
  at the start of the call, then proceed). The state handed to the recursive call never
  takes the recursive branch again, so there is at most one recursive call; and with a
  non-empty universe a random serve returns an item even when the pool is exhausted.
\<close>

theorem refill_then_recurse_equivalence:
  "get_random_music_recommendation file rnd s = guarded_random_music file rnd s
   \<and> find_and_recommend_music_by_desc rt file weather_desc s
       = guarded_match_music rt file weather_desc s
   \<and> get_random_movie_poster rt listing url_for rnd ms
       = guarded_random_movie rt listing url_for rnd ms
   \<and> (music_recurses file s \<longrightarrow>
        get_random_music_recommendation file rnd s
          = get_random_music_recommendation file rnd (refill (ensure_loaded file s))
        \<and> find_and_recommend_music_by_desc rt file weather_desc s
          = find_and_recommend_music_by_desc rt file weather_desc (refill (ensure_loaded file s))
        \<and> \<not> music_recurses file (refill (ensure_loaded file s)))
   \<and> (movie_recurses rt listing ms \<longrightarrow>
        get_random_movie_poster rt listing url_for rnd ms
          = get_random_movie_poster rt listing url_for rnd
              ((ensure_posters rt listing ms)
                 \<lparr>unrecommended_posters := all_movie_posters (ensure_posters rt listing ms)\<rparr>)
        \<and> \<not> movie_recurses rt listing
              ((ensure_posters rt listing ms)
                 \<lparr>unrecommended_posters := all_movie_posters (ensure_posters rt listing ms)\<rparr>))
   \<and> (all_available_videos s \<noteq> [] \<longrightarrow>
        (\<exists>r. snd (get_random_music_recommendation file rnd s) = Inr (Some r) \<and> mr_url r \<noteq> None))
   \<and> (all_movie_posters ms \<noteq> [] \<longrightarrow>
        (\<exists>r. snd (get_random_movie_poster rt listing url_for rnd ms) = Inr (Some r)
           \<and> poster_url r \<noteq> None))"
proof (intro conjI impI)
  show "get_random_music_recommendation file rnd s = guarded_random_music file rnd s"
    by (rule random_eq_guarded)
  show "find_and_recommend_music_by_desc rt file weather_desc s
       = guarded_match_music rt file weather_desc s"
    by (rule find_eq_guarded)
  show "get_random_movie_poster rt listing url_for rnd ms
       = guarded_random_movie rt listing url_for rnd ms"
    by (rule poster_eq_guarded)
next
  assume "music_recurses file s"
  then show "get_random_music_recommendation file rnd s
          = get_random_music_recommendation file rnd (refill (ensure_loaded file s))"
    by (subst get_random_music_recommendation.simps) (simp add: music_recurses_def Let_def)
next
  assume "music_recurses file s"
  then show "find_and_recommend_music_by_desc rt file weather_desc s
          = find_and_recommend_music_by_desc rt file weather_desc (refill (ensure_loaded file s))"
    by (subst find_and_recommend_music_by_desc.simps) (simp add: music_recurses_def Let_def)
next
  assume "music_recurses file s"
  then show "\<not> music_recurses file (refill (ensure_loaded file s))"
    by (simp add: music_recurses_def ensure_loaded_def refill_def)
next
  assume "movie_recurses rt listing ms"
  then show "get_random_movie_poster rt listing url_for rnd ms
          = get_random_movie_poster rt listing url_for rnd
              ((ensure_posters rt listing ms)
                 \<lparr>unrecommended_posters := all_movie_posters (ensure_posters rt listing ms)\<rparr>)"
    by (subst get_random_movie_poster.simps) (simp add: movie_recurses_def Let_def)
next
  assume "movie_recurses rt listing ms"
  then show "\<not> movie_recurses rt listing
              ((ensure_posters rt listing ms)
                 \<lparr>unrecommended_posters := all_movie_posters (ensure_posters rt listing ms)\<rparr>)"
    by (simp add: movie_recurses_def ensure_posters_def)
next
  assume ne: "all_available_videos s \<noteq> []"
  then have "unplayed_videos (if unplayed_videos s = [] then refill s else s) \<noteq> []"
    by (simp add: refill_def)
  from random_body_returns[OF this, of rnd] ne
  show "\<exists>r. snd (get_random_music_recommendation file rnd s) = Inr (Some r) \<and> mr_url r \<noteq> None"
    by (simp add: random_eq_guarded guarded_random_music_def ensure_loaded_def)
next
  assume "all_movie_posters ms \<noteq> []"
  from movie_random_returns_item[OF this, of rt listing url_for rnd]
  show "\<exists>r. snd (get_random_movie_poster rt listing url_for rnd ms) = Inr (Some r)
           \<and> poster_url r \<noteq> None"
    by (auto simp: poster_recommendation_def)
qed

theorem refill_then_recurse_equivalence_witness:
  "music_recurses None played_pool
   \<and> movie_recurses sample_runtime None sold_out_rack
   \<and> all_available_videos played_pool \<noteq> []
   \<and> all_movie_posters sold_out_rack \<noteq> []
   \<and> get_random_music_recommendation None 7 played_pool = guarded_random_music None 7 played_pool
   \<and> get_random_music_recommendation None 7 played_pool
       = get_random_music_recommendation None 7 (refill (ensure_loaded None played_pool))
   \<and> \<not> music_recurses None (refill (ensure_loaded None played_pool))
   \<and> \<not> movie_recurses sample_runtime None
        ((ensure_posters sample_runtime None sold_out_rack)
           \<lparr>unrecommended_posters := all_movie_posters (ensure_posters sample_runtime None sold_out_rack)\<rparr>)
   \<and> (\<exists>r. snd (get_random_music_recommendation None 7 played_pool) = Inr (Some r)
         \<and> mr_url r \<noteq> None)
   \<and> (\<exists>r. snd (get_random_movie_poster sample_runtime None sample_url_for 7 sold_out_rack)
           = Inr (Some r) \<and> poster_url r \<noteq> None)"
proof -
  have a: "music_recurses None played_pool"
    by (simp add: music_recurses_def ensure_loaded_def played_pool_def)
  have b: "movie_recurses sample_runtime None sold_out_rack"
    by (simp add: movie_recurses_def ensure_posters_def sold_out_rack_def)
  have c: "all_available_videos played_pool \<noteq> []" by (simp add: played_pool_def)
  have d: "all_movie_posters sold_out_rack \<noteq> []" by (simp add: sold_out_rack_def)
  from refill_then_recurse_equivalence[of None 7 played_pool sample_runtime sunny None
      sample_url_for sold_out_rack] a b c d
  show ?thesis by blast
qed

subsection \<open>Claims about the name corrector\<close>

lemma taipei_listed: "taipei \<in> set default_locations"
  by (simp add: taipei_def default_locations_def)

lemma auto_correct_exact:
  "dict_get (MANUAL_CORRECTIONS cfg) input_city input_city \<in> set available_locations \<Longrightarrow>
   auto_correct_city rt cfg input_city available_locations
     = Inr (Some (dict_get (MANUAL_CORRECTIONS cfg) input_city input_city))"
  by (simp add: auto_correct_city_def)

lemma fuzzywuzzy_extractOne_not_triple:
  "fuzzywuzzy_extractOne processor scorer query choices \<noteq> Result3 m sc k"
  by (simp add: fuzzywuzzy_extractOne_def Let_def split: option.splits prod.splits)

lemma auto_correct_with_triple:
  assumes "dict_get (MANUAL_CORRECTIONS cfg) input_city input_city \<notin> set available_locations"
    and "available_locations \<noteq> []"
    and "process_extractOne rt (dict_get (MANUAL_CORRECTIONS cfg) input_city input_city)
           available_locations = Result3 m sc k"
  shows "auto_correct_city rt cfg input_city available_locations
           = (if 75 \<le> sc then Inr (Some m) else Inr None)"
  using assms by (simp add: auto_correct_city_def Let_def)

lemma auto_correct_fuzzy_raises:
  assumes "fuzzywuzzy_runtime rt"
    and "dict_get (MANUAL_CORRECTIONS cfg) input_city input_city \<notin> set available_locations"
    and "available_locations \<noteq> []"
  shows "\<exists>e. auto_correct_city rt cfg input_city available_locations = Inl e"
proof -
  let ?r = "process_extractOne rt (dict_get (MANUAL_CORRECTIONS cfg) input_city input_city)
              available_locations"
  have "\<exists>e. unpack3 ?r = Inl e"
    using assms(1) fuzzywuzzy_extractOne_not_triple[of "full_process rt" "fuzz_ratio rt" _
        available_locations]
    by (cases ?r) (auto simp: fuzzywuzzy_runtime_def)
  with assms(2,3) show ?thesis by (auto simp: auto_correct_city_def Let_def)
qed

lemma auto_correct_some_nonempty:
  assumes "auto_correct_city rt cfg input_city available_locations = Inr (Some region)"
  shows "available_locations \<noteq> []"
proof
  assume "available_locations = []"
  with assms show False by (simp add: auto_correct_city_def)
qed

text \<open>
  C5. The alias substitution and the exact match are as claimed, but the fuzzy step is
  not: fuzzywuzzy's \<open>extractOne\<close> on a list of choices gives a pair and the source unpacks
  three values. For the city name without its last character against the hard-coded
  list, the claim has the best candidate returned if its ratio is at least 75, or no
  match; with the \<open>extractOne\<close> of fuzzywuzzy the call raises \<open>ValueError\<close>.
\<close>

theorem fuzzy_step_raises:
  "auto_correct_city sample_runtime sample_settings taipei_short default_locations = Inl ValueError"
  by (simp add: auto_correct_city_def dict_get_def sample_settings_def taipei_short_def
      taipei_alias_def taipei_def default_locations_def fuzzywuzzy_extractOne_def
      sample_runtime_def sample_ratio_def)

text \<open>
  C6, as amended. A candidate name that the alias table does not map to another string
  is returned as it is.
\<close>

theorem canonical_name_kept:
  assumes "name \<in> set available_locations"
    and "map_of (MANUAL_CORRECTIONS cfg) name = None \<or> map_of (MANUAL_CORRECTIONS cfg) name = Some name"
  shows "auto_correct_city rt cfg name available_locations = Inr (Some name)"
proof -
  from assms(2) have "dict_get (MANUAL_CORRECTIONS cfg) name name = name"
    by (auto simp: dict_get_def)
  with assms(1) auto_correct_exact[of cfg name available_locations rt] show ?thesis by simp
qed

theorem canonical_name_kept_witness:
  "taipei \<in> set default_locations
   \<and> map_of (MANUAL_CORRECTIONS sample_settings) taipei = None
   \<and> auto_correct_city sample_runtime sample_settings taipei default_locations = Inr (Some taipei)"
proof -
  have a: "map_of (MANUAL_CORRECTIONS sample_settings) taipei = None"
    by (simp add: sample_settings_def taipei_def taipei_alias_def)
  then have b: "map_of (MANUAL_CORRECTIONS sample_settings) taipei = None
      \<or> map_of (MANUAL_CORRECTIONS sample_settings) taipei = Some taipei" by simp
  from canonical_name_kept[OF taipei_listed b, of sample_runtime] taipei_listed a
  show ?thesis by simp
qed

text \<open>
  C6 as stated fails: with the alias of the specification's scenario and a candidate
  list that holds the everyday spelling too, that candidate is not returned as it is
  but replaced by its alias target.
\<close>

theorem canonical_name_remapped_counterexample:
  "taipei_alias \<in> set [taipei_alias, taipei]
   \<and> auto_correct_city sample_runtime sample_settings taipei_alias [taipei_alias, taipei]
       = Inr (Some taipei)
   \<and> taipei \<noteq> taipei_alias"
  by (simp add: auto_correct_city_def dict_get_def sample_settings_def taipei_def taipei_alias_def)

subsection \<open>Claims about the weather lookup\<close>

lemma get_all_location_names_effect:
  assumes "get_all_location_names cfg w s = (s1, calls, available)"
  shows "weather_data_cache s1 = weather_data_cache s \<and> location_names s1 = available
       \<and> set calls \<subseteq> {FetchCWA (cwa_url cfg)}"
  using assms
  by (auto simp: get_all_location_names_def Let_def split: if_splits sum.splits option.splits)

lemma get_all_location_names_loaded:
  "location_names s \<noteq> [] \<Longrightarrow> get_all_location_names cfg w s = (s, [], location_names s)"
  by (simp add: get_all_location_names_def)

lemma weather_url_not_list_url: "weather_url cfg region \<noteq> cwa_url cfg"
  by (simp add: weather_url_def asc_def)

lemma fetch_weather_log:
  "fst (snd (fetch_weather rt cfg w region s)) = [FetchCWA (weather_url cfg region)]"
  by (simp add: fetch_weather_def Let_def split: sum.splits option.splits)

lemma lookup_corrected:
  assumes nd: "\<not> (\<exists>c \<in> set city_input. str_isdigit rt c)"
    and names: "get_all_location_names cfg w s = (s1, calls, available)"
    and corr: "auto_correct_city rt cfg city_input available = Inr (Some region)"
    and ne: "region \<noteq> []"
  shows "get_current_weather rt cfg w city_input s =
     (case (case weather_data_cache s1 region of
              None \<Rightarrow> None
            | Some cached_data \<Rightarrow>
                if fresh (now_check w) cached_data then Some (response cached_data) else None) of
        Some resp \<Rightarrow> (s1, calls @ [AutoCorrectCity city_input], Inr (Some resp))
      | None \<Rightarrow>
          (case fetch_weather rt cfg w region s1 of (s2, calls2, r) \<Rightarrow>
             (s2, calls @ AutoCorrectCity city_input # calls2, r)))"
  using assms by (simp add: get_current_weather_def Let_def)

lemma lookup_hit:
  assumes nd: "\<not> (\<exists>c \<in> set city_input. str_isdigit rt c)"
    and names: "get_all_location_names cfg w s = (s1, calls, available)"
    and corr: "auto_correct_city rt cfg city_input available = Inr (Some region)"
    and ne: "region \<noteq> []"
    and entry: "weather_data_cache s region = Some entry"
    and fr: "fresh (now_check w) entry"
  shows "get_current_weather rt cfg w city_input s
           = (s1, calls @ [AutoCorrectCity city_input], Inr (Some (response entry)))"
proof -
  from get_all_location_names_effect[OF names] entry
  have "weather_data_cache s1 region = Some entry" by simp
  with fr lookup_corrected[OF nd names corr ne] show ?thesis by simp
qed

lemma lookup_miss:
  assumes nd: "\<not> (\<exists>c \<in> set city_input. str_isdigit rt c)"
    and names: "get_all_location_names cfg w s = (s1, calls, available)"
    and corr: "auto_correct_city rt cfg city_input available = Inr (Some region)"
    and ne: "region \<noteq> []"
    and miss: "weather_data_cache s region = None
               \<or> (\<exists>entry. weather_data_cache s region = Some entry \<and> \<not> fresh (now_check w) entry)"
  shows "get_current_weather rt cfg w city_input s
           = (fst (fetch_weather rt cfg w region s1),
              calls @ [AutoCorrectCity city_input, FetchCWA (weather_url cfg region)],
              snd (snd (fetch_weather rt cfg w region s1)))"
proof -
  from get_all_location_names_effect[OF names]
  have c: "weather_data_cache s1 region = weather_data_cache s region" by simp
  from miss c have
    "(case weather_data_cache s1 region of
        None \<Rightarrow> None
      | Some cached_data \<Rightarrow>
          if fresh (now_check w) cached_data then Some (response cached_data) else None) = None"
    by auto
  with lookup_corrected[OF nd names corr ne] fetch_weather_log[of rt cfg w region s1]
  show ?thesis by (simp add: split_beta)
qed

text \<open>
  C9. An input with a digit character gets the synthetic "invalid input" response; the
  call makes no other call (neither the corrector nor any fetch) and leaves the state as
  it is.
\<close>

theorem digits_short_circuit:
  assumes "c \<in> set city_input" and "str_isdigit rt c"
  shows "get_current_weather rt cfg w city_input s
           = (s, [], Inr (Some (invalid_input_response city_input)))"
  using assms by (auto simp: get_current_weather_def)

theorem digits_short_circuit_witness:
  "51 \<in> set (taipei @ [51]) \<and> str_isdigit sample_runtime 51
   \<and> get_current_weather sample_runtime sample_settings world_up (taipei @ [51]) cold_state
       = (cold_state, [], Inr (Some (invalid_input_response (taipei @ [51]))))"
proof -
  have a: "(51::nat) \<in> set (taipei @ [51])" by simp
  have b: "str_isdigit sample_runtime 51" by (simp add: sample_runtime_def)
  from digits_short_circuit[OF a b] a b show ?thesis by blast
qed

lemma fetch_weather_success:
  assumes "fetch_data_from_cwa w (weather_url cfg region) = Inr data"
    and "build_response rt cfg w region data = Inr (Some resp)"
  shows "fetch_weather rt cfg w region s1 =
           (s1\<lparr>weather_data_cache :=
                (weather_data_cache s1)(region \<mapsto> \<lparr>response = resp, timestamp = now_store w\<rparr>)\<rparr>,
            [FetchCWA (weather_url cfg region)], Inr (Some resp))"
  using assms by (simp add: fetch_weather_def)

lemma fetch_weather_failure:
  assumes "(\<exists>e. fetch_data_from_cwa w (weather_url cfg region) = Inl e)
           \<or> (\<exists>data. fetch_data_from_cwa w (weather_url cfg region) = Inr data
                 \<and> (\<forall>resp. build_response rt cfg w region data \<noteq> Inr (Some resp)))"
  shows "\<exists>r. fetch_weather rt cfg w region s1 = (s1, [FetchCWA (weather_url cfg region)], Inr (Some r))
           \<and> (r = no_forecast_response region \<or> (\<exists>e. r = error_response rt region e))"
  using assms by (auto simp: fetch_weather_def Let_def split: sum.splits option.splits)

lemma sample_no_digit: "\<not> (\<exists>c \<in> set taipei. str_isdigit sample_runtime c)"
  by (simp add: taipei_def sample_runtime_def)

lemma sample_corrected:
  "auto_correct_city sample_runtime sample_settings taipei default_locations = Inr (Some taipei)"
  using auto_correct_exact[of sample_settings taipei default_locations sample_runtime] taipei_listed
  by (simp add: dict_get_def sample_settings_def taipei_def taipei_alias_def)

lemma taipei_not_empty: "taipei \<noteq> []"
  by (simp add: taipei_def)

lemma sample_names:
  "get_all_location_names sample_settings w cold_state = (cold_state, [], default_locations)"
  "get_all_location_names sample_settings w warm_state = (warm_state, [], default_locations)"
  "get_all_location_names sample_settings w stale_state = (stale_state, [], default_locations)"
  by (simp_all add: get_all_location_names_def cold_state_def warm_state_def stale_state_def
      default_locations_def)

text \<open>
  C7. For a lookup whose input is corrected to a region: if the cache has an entry for
  the region that is less than 600 seconds old, the cached snapshot is returned, the
  cache is untouched and the weather URL is not fetched. If there is no entry or the
  entry is 600 seconds old or older, the weather URL is fetched; when that fetch yields
  a document from which a response is built, this response is returned and stored under
  the region with the time of storing, and a further lookup less than 600 seconds after
  that time returns the identical snapshot without any fetch.
\<close>

theorem cache_freshness:
  assumes nd: "\<not> (\<exists>c \<in> set city_input. str_isdigit rt c)"
    and names: "get_all_location_names cfg w s = (s1, calls, available)"
    and corr: "auto_correct_city rt cfg city_input available = Inr (Some region)"
    and ne: "region \<noteq> []"
  shows "(\<forall>entry. weather_data_cache s region = Some entry \<and> fresh (now_check w) entry \<longrightarrow>
            get_current_weather rt cfg w city_input s
              = (s1, calls @ [AutoCorrectCity city_input], Inr (Some (response entry)))
            \<and> weather_data_cache s1 = weather_data_cache s
            \<and> FetchCWA (weather_url cfg region) \<notin> set (calls @ [AutoCorrectCity city_input]))
       \<and> (weather_data_cache s region = None
           \<or> (\<exists>entry. weather_data_cache s region = Some entry \<and> \<not> fresh (now_check w) entry) \<longrightarrow>
            (\<exists>s2 r. get_current_weather rt cfg w city_input s
                       = (s2, calls @ [AutoCorrectCity city_input, FetchCWA (weather_url cfg region)], r)
               \<and> (\<forall>data resp.
                     fetch_data_from_cwa w (weather_url cfg region) = Inr data
                     \<and> build_response rt cfg w region data = Inr (Some resp) \<longrightarrow>
                       r = Inr (Some resp)
                       \<and> weather_data_cache s2
                           = (weather_data_cache s)(region \<mapsto>
                                \<lparr>response = resp, timestamp = now_store w\<rparr>)
                       \<and> (\<forall>w'. now_check w' - now_store w < 600 * 1000000 \<longrightarrow>
                             get_current_weather rt cfg w' city_input s2
                               = (s2, [AutoCorrectCity city_input], Inr (Some resp))))))"
proof (intro conjI allI impI)
  fix entry
  assume a: "weather_data_cache s region = Some entry \<and> fresh (now_check w) entry"
  then show "get_current_weather rt cfg w city_input s
              = (s1, calls @ [AutoCorrectCity city_input], Inr (Some (response entry)))"
    using lookup_hit[OF nd names corr ne] by simp
  show "weather_data_cache s1 = weather_data_cache s"
    using get_all_location_names_effect[OF names] by simp
  show "FetchCWA (weather_url cfg region) \<notin> set (calls @ [AutoCorrectCity city_input])"
    using get_all_location_names_effect[OF names] weather_url_not_list_url[of cfg region] by auto
next
  assume miss: "weather_data_cache s region = None
           \<or> (\<exists>entry. weather_data_cache s region = Some entry \<and> \<not> fresh (now_check w) entry)"
  let ?s2 = "fst (fetch_weather rt cfg w region s1)"
  let ?r = "snd (snd (fetch_weather rt cfg w region s1))"
  have run: "get_current_weather rt cfg w city_input s
               = (?s2, calls @ [AutoCorrectCity city_input, FetchCWA (weather_url cfg region)], ?r)"
    using nd names corr ne miss by (rule lookup_miss)
  have eff: "weather_data_cache s1 = weather_data_cache s" "location_names s1 = available"
    using get_all_location_names_effect[OF names] by simp_all
  have av: "available \<noteq> []" using corr by (rule auto_correct_some_nonempty)
  have "\<forall>data resp.
          fetch_data_from_cwa w (weather_url cfg region) = Inr data
          \<and> build_response rt cfg w region data = Inr (Some resp) \<longrightarrow>
            ?r = Inr (Some resp)
            \<and> weather_data_cache ?s2
                = (weather_data_cache s)(region \<mapsto> \<lparr>response = resp, timestamp = now_store w\<rparr>)
            \<and> (\<forall>w'. now_check w' - now_store w < 600 * 1000000 \<longrightarrow>
                  get_current_weather rt cfg w' city_input ?s2
                    = (?s2, [AutoCorrectCity city_input], Inr (Some resp)))"
  proof (intro allI impI)
    fix data resp
    assume ok: "fetch_data_from_cwa w (weather_url cfg region) = Inr data
          \<and> build_response rt cfg w region data = Inr (Some resp)"
    then have f1: "fetch_data_from_cwa w (weather_url cfg region) = Inr data"
      and f2: "build_response rt cfg w region data = Inr (Some resp)" by simp_all
    have fw: "fetch_weather rt cfg w region s1 =
           (s1\<lparr>weather_data_cache :=
                (weather_data_cache s1)(region \<mapsto> \<lparr>response = resp, timestamp = now_store w\<rparr>)\<rparr>,
            [FetchCWA (weather_url cfg region)], Inr (Some resp))"
      using f1 f2 by (rule fetch_weather_success)
    have r: "?r = Inr (Some resp)" using fw by simp
    have c2: "weather_data_cache ?s2
                = (weather_data_cache s)(region \<mapsto> \<lparr>response = resp, timestamp = now_store w\<rparr>)"
      using fw eff by simp
    have l2: "location_names ?s2 = available" using fw eff by simp
    have again: "\<forall>w'. now_check w' - now_store w < 600 * 1000000 \<longrightarrow>
                  get_current_weather rt cfg w' city_input ?s2
                    = (?s2, [AutoCorrectCity city_input], Inr (Some resp))"
    proof (intro allI impI)
      fix w' :: world
      assume near: "now_check w' - now_store w < 600 * 1000000"
      have n2: "get_all_location_names cfg w' ?s2 = (?s2, [], available)"
        using get_all_location_names_loaded[of ?s2 cfg w'] l2 av by simp
      have e2: "weather_data_cache ?s2 region = Some \<lparr>response = resp, timestamp = now_store w\<rparr>"
        using c2 by simp
      have f2: "fresh (now_check w') \<lparr>response = resp, timestamp = now_store w\<rparr>"
        using near by (simp add: fresh_def)
      from lookup_hit[OF nd n2 corr ne e2 f2]
      show "get_current_weather rt cfg w' city_input ?s2
              = (?s2, [AutoCorrectCity city_input], Inr (Some resp))" by simp
    qed
    from r c2 again
    show "?r = Inr (Some resp)
            \<and> weather_data_cache ?s2
                = (weather_data_cache s)(region \<mapsto> \<lparr>response = resp, timestamp = now_store w\<rparr>)
            \<and> (\<forall>w'. now_check w' - now_store w < 600 * 1000000 \<longrightarrow>
                  get_current_weather rt cfg w' city_input ?s2
                    = (?s2, [AutoCorrectCity city_input], Inr (Some resp)))"
      by blast
  qed
  with run
  show "\<exists>s2 r. get_current_weather rt cfg w city_input s
                       = (s2, calls @ [AutoCorrectCity city_input, FetchCWA (weather_url cfg region)], r)
               \<and> (\<forall>data resp.
                     fetch_data_from_cwa w (weather_url cfg region) = Inr data
                     \<and> build_response rt cfg w region data = Inr (Some resp) \<longrightarrow>
                       r = Inr (Some resp)
                       \<and> weather_data_cache s2
                           = (weather_data_cache s)(region \<mapsto>
                                \<lparr>response = resp, timestamp = now_store w\<rparr>)
                       \<and> (\<forall>w'. now_check w' - now_store w < 600 * 1000000 \<longrightarrow>
                             get_current_weather rt cfg w' city_input s2
                               = (s2, [AutoCorrectCity city_input], Inr (Some resp))))"
    by blast
qed

theorem cache_freshness_witness:
  "get_current_weather sample_runtime sample_settings world_up taipei warm_state
     = (warm_state, [AutoCorrectCity taipei], Inr (Some old_response))
   \<and> FetchCWA (weather_url sample_settings taipei) \<notin> set ([] @ [AutoCorrectCity taipei])
   \<and> (\<exists>s2 r. get_current_weather sample_runtime sample_settings world_up taipei stale_state
               = (s2, [AutoCorrectCity taipei, FetchCWA (weather_url sample_settings taipei)], r))"
proof -
  have e: "weather_data_cache warm_state taipei
             = Some \<lparr>response = old_response, timestamp = 600000000\<rparr>
           \<and> fresh (now_check world_up) \<lparr>response = old_response, timestamp = 600000000\<rparr>"
    by (simp add: warm_state_def fresh_def world_up_def)
  have m: "weather_data_cache stale_state taipei = None
           \<or> (\<exists>entry. weather_data_cache stale_state taipei = Some entry
                 \<and> \<not> fresh (now_check world_up) entry)"
    by (simp add: stale_state_def fresh_def world_up_def)
  from cache_freshness[OF sample_no_digit sample_names(2) sample_corrected taipei_not_empty,
      of world_up] e
  have "get_current_weather sample_runtime sample_settings world_up taipei warm_state
     = (warm_state, [] @ [AutoCorrectCity taipei],
        Inr (Some (response \<lparr>response = old_response, timestamp = 600000000\<rparr>)))
     \<and> FetchCWA (weather_url sample_settings taipei) \<notin> set ([] @ [AutoCorrectCity taipei])"
    by blast
  moreover
  from cache_freshness[OF sample_no_digit sample_names(3) sample_corrected taipei_not_empty,
      of world_up] m
  have "\<exists>s2 r. get_current_weather sample_runtime sample_settings world_up taipei stale_state
               = (s2, [] @ [AutoCorrectCity taipei, FetchCWA (weather_url sample_settings taipei)], r)"
    by blast
  ultimately show ?thesis by simp
qed

lemma is_request_exception_iff: "is_request_exception e = (\<exists>m. e = RequestException m)"
  by (cases e) (simp_all add: is_request_exception_def)

lemma error_response_fields:
  "error_response rt region e =
     \<lparr>city_name = region, weather_description = [78, 47, 65],
      display_text =
        (if \<exists>m. e = RequestException m then
           [28961, 27861, 21462, 24471, 22825, 27683, 36039, 26009, 65306, 32178, 36335, 25110, 65,
            80, 73, 37679, 35492, 32, 40] @ exc_str rt e @ [41]
         else
           [34389, 29702, 22825, 27683, 36039, 26009, 26178, 30332, 29983, 37679, 35492, 58, 32]
           @ exc_str rt e),
      current_weather_type = [26228]\<rparr>"
  by (simp add: error_response_def is_request_exception_iff asc_def)

lemma no_forecast_response_fields:
  "no_forecast_response region =
     \<lparr>city_name = region, weather_description = [78, 47, 65],
      display_text =
        [28961, 27861, 21462, 24471, 22825, 27683, 36039, 26009, 65306, 36039, 26009, 32080, 27083,
         30064, 24120, 25110, 28961, 26377, 25928, 38928, 22577],
      current_weather_type = [26228]\<rparr>"
  by (simp add: no_forecast_response_def asc_def)

lemma fetch_weather_raises:
  assumes "fetch_data_from_cwa w (weather_url cfg region) = Inl e
           \<or> (\<exists>data. fetch_data_from_cwa w (weather_url cfg region) = Inr data
                 \<and> build_response rt cfg w region data = Inl e)"
  shows "fetch_weather rt cfg w region s1
           = (s1, [FetchCWA (weather_url cfg region)], Inr (Some (error_response rt region e)))"
  using assms by (auto simp: fetch_weather_def Let_def)

lemma fetch_weather_no_forecast:
  assumes "fetch_data_from_cwa w (weather_url cfg region) = Inr data"
    and "build_response rt cfg w region data = Inr None"
  shows "fetch_weather rt cfg w region s1
           = (s1, [FetchCWA (weather_url cfg region)], Inr (Some (no_forecast_response region)))"
  using assms by (simp add: fetch_weather_def Let_def)

lemma build_response_no_structure:
  assumes "records data = None
           \<or> (\<exists>recs. records data = Some recs \<and> (location recs = None \<or> location recs = Some []))"
  shows "build_response rt cfg w region data = Inr None"
  using assms by (auto simp: build_response_def)

lemma build_response_no_elements:
  assumes "records data = Some recs" and "location recs = Some (loc0 # locs)"
    and "weatherElement loc0 = None"
  shows "build_response rt cfg w region data = Inl (KeyError [119, 101, 97, 116, 104, 101, 114, 69, 108, 101, 109, 101, 110, 116])"
  using assms by (simp add: build_response_def asc_def)

text \<open>
  C8. For a lookup whose input is corrected to a region and that has to fetch (no entry
  less than 600 seconds old), the cache is as before and no exception escapes in each
  of these cases. When the fetch raises \<open>e\<close>, or the construction of the response from
  the fetched document raises \<open>e\<close>, the lookup returns the response for the region with
  description "N/A" and the text for \<open>e\<close>: the network text around \<open>str(e)\<close> for a
  \<open>RequestException\<close>, the processing text followed by \<open>str(e)\<close> otherwise. When the
  structure test on the document fails, as it does for a document without \<open>records\<close>,
  without \<open>location\<close> or with no location, it returns the response with the
  "structure abnormal" text. A first location without \<open>weatherElement\<close> is the case of
  the \<open>KeyError\<close> of that key.
\<close>

theorem failing_fetch_keeps_cache:
  assumes nd: "\<not> (\<exists>c \<in> set city_input. str_isdigit rt c)"
    and names: "get_all_location_names cfg w s = (s1, calls, available)"
    and corr: "auto_correct_city rt cfg city_input available = Inr (Some region)"
    and ne: "region \<noteq> []"
    and miss: "weather_data_cache s region = None
               \<or> (\<exists>entry. weather_data_cache s region = Some entry \<and> \<not> fresh (now_check w) entry)"
  shows "weather_data_cache s1 = weather_data_cache s
       \<and> (\<forall>e. fetch_data_from_cwa w (weather_url cfg region) = Inl e
               \<or> (\<exists>data. fetch_data_from_cwa w (weather_url cfg region) = Inr data
                     \<and> build_response rt cfg w region data = Inl e) \<longrightarrow>
             get_current_weather rt cfg w city_input s
               = (s1, calls @ [AutoCorrectCity city_input, FetchCWA (weather_url cfg region)],
                  Inr (Some
                    \<lparr>city_name = region, weather_description = [78, 47, 65],
                     display_text =
                       (if \<exists>m. e = RequestException m then
                          [28961, 27861, 21462, 24471, 22825, 27683, 36039, 26009, 65306, 32178,
                           36335, 25110, 65, 80, 73, 37679, 35492, 32, 40] @ exc_str rt e @ [41]
                        else
                          [34389, 29702, 22825, 27683, 36039, 26009, 26178, 30332, 29983, 37679,
                           35492, 58, 32] @ exc_str rt e),
                     current_weather_type = [26228]\<rparr>)))
       \<and> (\<forall>data. fetch_data_from_cwa w (weather_url cfg region) = Inr data
               \<and> (build_response rt cfg w region data = Inr None
                   \<or> records data = None
                   \<or> (\<exists>recs. records data = Some recs
                         \<and> (location recs = None \<or> location recs = Some []))) \<longrightarrow>
             get_current_weather rt cfg w city_input s
               = (s1, calls @ [AutoCorrectCity city_input, FetchCWA (weather_url cfg region)],
                  Inr (Some
                    \<lparr>city_name = region, weather_description = [78, 47, 65],
                     display_text =
                       [28961, 27861, 21462, 24471, 22825, 27683, 36039, 26009, 65306, 36039, 26009,
                        32080, 27083, 30064, 24120, 25110, 28961, 26377, 25928, 38928, 22577],
                     current_weather_type = [26228]\<rparr>)))
       \<and> (\<forall>data recs loc0 locs.
             fetch_data_from_cwa w (weather_url cfg region) = Inr data
               \<and> records data = Some recs \<and> location recs = Some (loc0 # locs)
               \<and> weatherElement loc0 = None \<longrightarrow>
             get_current_weather rt cfg w city_input s
               = (s1, calls @ [AutoCorrectCity city_input, FetchCWA (weather_url cfg region)],
                  Inr (Some
                    \<lparr>city_name = region, weather_description = [78, 47, 65],
                     display_text =
                       [34389, 29702, 22825, 27683, 36039, 26009, 26178, 30332, 29983, 37679,
                        35492, 58, 32]
                       @ exc_str rt (KeyError [119, 101, 97, 116, 104, 101, 114, 69, 108, 101, 109,
                                               101, 110, 116]),
                     current_weather_type = [26228]\<rparr>)))"
proof (intro conjI allI impI)
  show "weather_data_cache s1 = weather_data_cache s"
    using get_all_location_names_effect[OF names] by simp
next
  fix e
  assume "fetch_data_from_cwa w (weather_url cfg region) = Inl e
               \<or> (\<exists>data. fetch_data_from_cwa w (weather_url cfg region) = Inr data
                     \<and> build_response rt cfg w region data = Inl e)"
  from fetch_weather_raises[OF this, of s1] lookup_miss[OF nd names corr ne miss]
  show "get_current_weather rt cfg w city_input s
               = (s1, calls @ [AutoCorrectCity city_input, FetchCWA (weather_url cfg region)],
                  Inr (Some
                    \<lparr>city_name = region, weather_description = [78, 47, 65],
                     display_text =
                       (if \<exists>m. e = RequestException m then
                          [28961, 27861, 21462, 24471, 22825, 27683, 36039, 26009, 65306, 32178,
                           36335, 25110, 65, 80, 73, 37679, 35492, 32, 40] @ exc_str rt e @ [41]
                        else
                          [34389, 29702, 22825, 27683, 36039, 26009, 26178, 30332, 29983, 37679,
                           35492, 58, 32] @ exc_str rt e),
                     current_weather_type = [26228]\<rparr>))"
    by (simp only: error_response_fields fst_conv snd_conv)
next
  fix data
  assume a: "fetch_data_from_cwa w (weather_url cfg region) = Inr data
               \<and> (build_response rt cfg w region data = Inr None
                   \<or> records data = None
                   \<or> (\<exists>recs. records data = Some recs
                         \<and> (location recs = None \<or> location recs = Some [])))"
  then have none: "build_response rt cfg w region data = Inr None"
    using build_response_no_structure[of data rt cfg w region] by blast
  from a have f: "fetch_data_from_cwa w (weather_url cfg region) = Inr data" by simp
  from fetch_weather_no_forecast[OF f none, of s1] lookup_miss[OF nd names corr ne miss]
  show "get_current_weather rt cfg w city_input s
               = (s1, calls @ [AutoCorrectCity city_input, FetchCWA (weather_url cfg region)],
                  Inr (Some
                    \<lparr>city_name = region, weather_description = [78, 47, 65],
                     display_text =
                       [28961, 27861, 21462, 24471, 22825, 27683, 36039, 26009, 65306, 36039, 26009,
                        32080, 27083, 30064, 24120, 25110, 28961, 26377, 25928, 38928, 22577],
                     current_weather_type = [26228]\<rparr>))"
    by (simp only: no_forecast_response_fields fst_conv snd_conv)
next
  fix data recs loc0 locs
  assume a: "fetch_data_from_cwa w (weather_url cfg region) = Inr data
               \<and> records data = Some recs \<and> location recs = Some (loc0 # locs)
               \<and> weatherElement loc0 = None"
  then have "build_response rt cfg w region data
      = Inl (KeyError [119, 101, 97, 116, 104, 101, 114, 69, 108, 101, 109, 101, 110, 116])"
    using build_response_no_elements[of data recs loc0 locs rt cfg w region] by simp
  with a have "fetch_data_from_cwa w (weather_url cfg region)
        = Inl (KeyError [119, 101, 97, 116, 104, 101, 114, 69, 108, 101, 109, 101, 110, 116])
      \<or> (\<exists>data. fetch_data_from_cwa w (weather_url cfg region) = Inr data
            \<and> build_response rt cfg w region data
                = Inl (KeyError [119, 101, 97, 116, 104, 101, 114, 69, 108, 101, 109, 101, 110, 116]))"
    by blast
  from fetch_weather_raises[OF this, of s1] lookup_miss[OF nd names corr ne miss]
  have "get_current_weather rt cfg w city_input s
               = (s1, calls @ [AutoCorrectCity city_input, FetchCWA (weather_url cfg region)],
                  Inr (Some (error_response rt region
                    (KeyError [119, 101, 97, 116, 104, 101, 114, 69, 108, 101, 109, 101, 110, 116]))))"
    by simp
  then show "get_current_weather rt cfg w city_input s
               = (s1, calls @ [AutoCorrectCity city_input, FetchCWA (weather_url cfg region)],
                  Inr (Some
                    \<lparr>city_name = region, weather_description = [78, 47, 65],
                     display_text =
                       [34389, 29702, 22825, 27683, 36039, 26009, 26178, 30332, 29983, 37679,
                        35492, 58, 32]
                       @ exc_str rt (KeyError [119, 101, 97, 116, 104, 101, 114, 69, 108, 101, 109,
                                               101, 110, 116]),
                     current_weather_type = [26228]\<rparr>))"
    by (simp add: error_response_fields)
qed

text \<open>
  At the sample inputs: the request times out with an entry 700 seconds old in the
  cache, and the document comes without \<open>records\<close> with nothing in the cache.
\<close>

theorem failing_fetch_keeps_cache_witness:
  "get_current_weather sample_runtime sample_settings world_down taipei stale_state
     = (stale_state, [AutoCorrectCity taipei, FetchCWA (weather_url sample_settings taipei)],
        Inr (Some
          \<lparr>city_name = taipei, weather_description = [78, 47, 65],
           display_text =
             [28961, 27861, 21462, 24471, 22825, 27683, 36039, 26009, 65306, 32178, 36335, 25110, 65,
              80, 73, 37679, 35492, 32, 40, 116, 105, 109, 101, 111, 117, 116, 41],
           current_weather_type = [26228]\<rparr>))
   \<and> get_current_weather sample_runtime sample_settings world_malformed taipei cold_state
     = (cold_state, [AutoCorrectCity taipei, FetchCWA (weather_url sample_settings taipei)],
        Inr (Some
          \<lparr>city_name = taipei, weather_description = [78, 47, 65],
           display_text =
             [28961, 27861, 21462, 24471, 22825, 27683, 36039, 26009, 65306, 36039, 26009, 32080,
              27083, 30064, 24120, 25110, 28961, 26377, 25928, 38928, 22577],
           current_weather_type = [26228]\<rparr>))"
proof -
  have m: "weather_data_cache stale_state taipei = None
           \<or> (\<exists>entry. weather_data_cache stale_state taipei = Some entry
                 \<and> \<not> fresh (now_check world_down) entry)"
    by (simp add: stale_state_def fresh_def world_down_def)
  have f: "fetch_data_from_cwa world_down (weather_url sample_settings taipei)
             = Inl (RequestException [116, 105, 109, 101, 111, 117, 116])"
    by (simp add: world_down_def asc_def)
  have x: "exc_str sample_runtime (RequestException [116, 105, 109, 101, 111, 117, 116])
             = [116, 105, 109, 101, 111, 117, 116]"
    by (simp add: sample_runtime_def)
  have m2: "weather_data_cache cold_state taipei = None
           \<or> (\<exists>entry. weather_data_cache cold_state taipei = Some entry
                 \<and> \<not> fresh (now_check world_malformed) entry)"
    by (simp add: cold_state_def)
  have f2: "fetch_data_from_cwa world_malformed (weather_url sample_settings taipei)
              = Inr \<lparr>records = None\<rparr>"
    by (simp add: world_malformed_def)
  from failing_fetch_keeps_cache[OF sample_no_digit sample_names(3) sample_corrected
      taipei_not_empty m] f x
  have one: "get_current_weather sample_runtime sample_settings world_down taipei stale_state
     = (stale_state, [AutoCorrectCity taipei, FetchCWA (weather_url sample_settings taipei)],
        Inr (Some
          \<lparr>city_name = taipei, weather_description = [78, 47, 65],
           display_text =
             [28961, 27861, 21462, 24471, 22825, 27683, 36039, 26009, 65306, 32178, 36335, 25110, 65,
              80, 73, 37679, 35492, 32, 40, 116, 105, 109, 101, 111, 117, 116, 41],
           current_weather_type = [26228]\<rparr>))"
    by simp
  from failing_fetch_keeps_cache[OF sample_no_digit sample_names(1) sample_corrected
      taipei_not_empty m2] f2
  have two: "get_current_weather sample_runtime sample_settings world_malformed taipei cold_state
     = (cold_state, [AutoCorrectCity taipei, FetchCWA (weather_url sample_settings taipei)],
        Inr (Some
          \<lparr>city_name = taipei, weather_description = [78, 47, 65],
           display_text =
             [28961, 27861, 21462, 24471, 22825, 27683, 36039, 26009, 65306, 36039, 26009, 32080,
              27083, 30064, 24120, 25110, 28961, 26377, 25928, 38928, 22577],
           current_weather_type = [26228]\<rparr>))"
    by simp
  from one two show ?thesis by (rule conjI)
qed

lemma sample_timeout_response:
  "get_current_weather sample_runtime sample_settings world_down taipei stale_state
     = (stale_state, [AutoCorrectCity taipei, FetchCWA (weather_url sample_settings taipei)],
        Inr (Some (error_response sample_runtime taipei (RequestException (asc ''timeout'')))))"
  using lookup_miss[OF sample_no_digit sample_names(3) sample_corrected taipei_not_empty, of world_down]
  by (simp add: stale_state_def fresh_def world_down_def fetch_weather_def)

lemma sample_malformed_response:
  "get_current_weather sample_runtime sample_settings world_malformed taipei cold_state
     = (cold_state, [AutoCorrectCity taipei, FetchCWA (weather_url sample_settings taipei)],
        Inr (Some (no_forecast_response taipei)))"
  using lookup_miss[OF sample_no_digit sample_names(1) sample_corrected taipei_not_empty, of world_malformed]
  by (simp add: cold_state_def world_malformed_def fetch_weather_def build_response_def)

lemma sample_build_response:
  "build_response sample_runtime sample_settings world_up taipei sample_data
     = Inr (Some \<lparr>city_name = taipei, weather_description = sunny,
                  display_text =
                    forecast_text taipei \<lparr>dt_us = 0, dt_month = 5, dt_day = 1, dt_hour = 6\<rparr> sunny
                      (asc ''10%''),
                  current_weather_type = [26228]\<rparr>)"
  by (simp add: build_response_def sample_data_def sample_slot_def nearest_slot_def
      sample_runtime_def rain_probability_def classify_weather_type_def sample_settings_def
      sunny_def asc_def)

end
